theory Spec2Isabelle
  imports Main "HOL-Library.Word"
begin

section \<open>Data model of contracts/computeLendingFHE.sol\<close>

text \<open>
  Solidity value types: an \<open>address\<close> is 160 bits, \<open>uint256\<close> and \<open>bytes32\<close> are 256 bits,
  \<open>bytes\<close> is a byte string. A \<open>mapping\<close> is a total function: every key reads as the
  zero value until it is written.
\<close>

type_synonym address = "160 word"
type_synonym uint256 = "256 word"
type_synonym bytes32 = "256 word"
type_synonym bytes = "8 word list"

record DecryptionContext =
  batchId :: uint256
  stateHash :: bytes32
  processed :: bool

datatype event =
    OwnershipTransferred address address
  | ProviderAdded address
  | ProviderRemoved address
  | PauseToggled bool
  | CooldownSecondsSet uint256 uint256
  | BatchOpened uint256
  | BatchClosed uint256
  | ComputeResourceSubmitted address uint256 bytes32 bytes32
  | DecryptionRequested uint256 uint256 bytes32
  | DecryptionCompleted uint256 uint256 uint256 uint256

text \<open>
  The eight custom errors of the contract, and the three ways a call reverts without one of
  them: the arithmetic panic of checked \<open>uint256\<close> arithmetic (the pragma is \<open>^0.8.24\<close> and no
  block is \<open>unchecked\<close>), a revert inside \<open>FHE.checkSignatures\<close>, and a revert of
  \<open>abi.decode\<close> on a payload shorter than one word.
\<close>

datatype error =
    NotOwner
  | NotProvider
  | Paused
  | CooldownActive
  | BatchClosedOrNonExistent
  | ReplayDetected
  | StateMismatch
  | InvalidBatchId
  | ArithmeticPanic
  | CheckSignaturesReverted
  | AbiDecodeReverted

text \<open>The storage of the contract, with the log of emitted events as a last field.\<close>

record contract =
  owner :: address
  isProvider :: "address \<Rightarrow> bool"
  paused :: bool
  cooldownSeconds :: uint256
  lastSubmissionTime :: "address \<Rightarrow> uint256"
  lastDecryptionRequestTime :: "address \<Rightarrow> uint256"
  currentBatchId :: uint256
  isBatchOpen :: "uint256 \<Rightarrow> bool"
  batchTotalEncryptedComputeUnits :: "uint256 \<Rightarrow> uint256"
  batchTotalEncryptedLendAmounts :: "uint256 \<Rightarrow> uint256"
  decryptionContexts :: "uint256 \<Rightarrow> DecryptionContext"
  events :: "event list"

text \<open>What a call sees of its transaction: \<open>msg.sender\<close> and \<open>block.timestamp\<close>.\<close>

record env =
  msg_sender :: address
  block_timestamp :: uint256

text \<open>
  The contract imports the FHE library and the keccak hash; neither is code of this
  repository. They are parameters of the model: \<open>'h\<close> is the type \<open>euint32\<close> of encrypted
  handles, and the record carries the library functions the contract calls, the hash of
  \<open>abi.encode(cts, address(this))\<close>, the contract's own address, and the bytes that the EVM
  memory holds behind the \<open>cleartexts\<close> array (read by the inline assembly of the
  callback when the payload is shorter than two words). \<open>FHE_asEuint32\<close> stands for every
  call of \<open>FHE.asEuint32\<close> on an integer: on the literal 0 in \<open>_initIfNeeded\<close> and on the
  stored accumulator word in \<open>submitEncryptedComputeResource\<close>.
\<close>

record 'h platform =
  self_address :: address
  FHE_add :: "'h \<Rightarrow> 'h \<Rightarrow> 'h"
  FHE_asEuint32 :: "uint256 \<Rightarrow> 'h"
  FHE_toBytes32 :: "'h \<Rightarrow> bytes32"
  FHE_isInitialized :: "'h \<Rightarrow> bool"
  FHE_checkSignatures :: "uint256 \<Rightarrow> bytes \<Rightarrow> bytes \<Rightarrow> bool"
  keccak256_abi_encode :: "bytes32 list \<Rightarrow> address \<Rightarrow> bytes32"
  memory_behind :: "bytes \<Rightarrow> bytes \<Rightarrow> bytes"

section \<open>Helpers\<close>

text \<open>Checked addition of Solidity 0.8: a panic instead of a wrap-around.\<close>

definition checked_add :: "uint256 \<Rightarrow> uint256 \<Rightarrow> error + uint256" where
  "checked_add a b = (if unat a + unat b < 2 ^ 256 then Inr (a + b) else Inl ArithmeticPanic)"

text \<open>A big-endian word of a byte string, as \<open>mload\<close> and \<open>abi.decode\<close> read it.\<close>

definition be_uint256 :: "bytes \<Rightarrow> uint256" where
  "be_uint256 bs = foldl (\<lambda>acc b. acc * 256 + ucast b) 0 bs"

text \<open>\<open>abi.decode(cleartexts, (uint256))\<close>: the first word, a revert when there is none.\<close>

definition abi_decode_uint256 :: "bytes \<Rightarrow> uint256 option" where
  "abi_decode_uint256 cleartexts =
     (if length cleartexts < 32 then None else Some (be_uint256 (take 32 cleartexts)))"

text \<open>
  \<open>mload(add(add(cleartexts, 0x20), 0x20))\<close>: the 32 bytes at offset 32 of the array's data,
  whatever the array's length; behind the data comes the rest of memory, and zeros behind
  that.
\<close>

definition mload_second_word :: "bytes \<Rightarrow> bytes \<Rightarrow> uint256" where
  "mload_second_word cleartexts behind =
     be_uint256 (take 32 (drop 32 (cleartexts @ behind) @ replicate 32 0))"

definition hashCiphertexts :: "'h platform \<Rightarrow> bytes32 list \<Rightarrow> bytes32" where
  "hashCiphertexts P cts = keccak256_abi_encode P cts (self_address P)"

text \<open>
  \<open>_initIfNeeded\<close> calls \<open>FHE.asEuint32(0)\<close> and drops the result: the argument is passed by
  value, so neither the handle nor the storage changes.
\<close>

definition initIfNeeded :: "'h platform \<Rightarrow> 'h \<Rightarrow> contract \<Rightarrow> contract" where
  "initIfNeeded P val s =
     (if \<not> FHE_isInitialized P val then (let unused = FHE_asEuint32 P 0 in s) else s)"

definition emit :: "event \<Rightarrow> contract \<Rightarrow> contract" where
  "emit ev s = s\<lparr>events := events s @ [ev]\<rparr>"

section \<open>The constructor and the external functions\<close>

definition constructor :: "env \<Rightarrow> contract" where
  "constructor e =
     emit (OwnershipTransferred 0 (msg_sender e))
       \<lparr>owner = msg_sender e,
        isProvider = (\<lambda>a. False),
        paused = False,
        cooldownSeconds = 0,
        lastSubmissionTime = (\<lambda>a. 0),
        lastDecryptionRequestTime = (\<lambda>a. 0),
        currentBatchId = 0,
        isBatchOpen = (\<lambda>b. False),
        batchTotalEncryptedComputeUnits = (\<lambda>b. 0),
        batchTotalEncryptedLendAmounts = (\<lambda>b. 0),
        decryptionContexts = (\<lambda>r. \<lparr>batchId = 0, stateHash = 0, processed = False\<rparr>),
        events = []\<rparr>"

definition transferOwnership :: "env \<Rightarrow> address \<Rightarrow> contract \<Rightarrow> error + contract" where
  "transferOwnership e newOwner s =
     (if msg_sender e \<noteq> owner s then Inl NotOwner
      else let previousOwner = owner s
           in Inr (emit (OwnershipTransferred previousOwner newOwner) (s\<lparr>owner := newOwner\<rparr>)))"

definition addProvider :: "env \<Rightarrow> address \<Rightarrow> contract \<Rightarrow> error + contract" where
  "addProvider e provider s =
     (if msg_sender e \<noteq> owner s then Inl NotOwner
      else if \<not> isProvider s provider
        then Inr (emit (ProviderAdded provider)
                    (s\<lparr>isProvider := (isProvider s)(provider := True)\<rparr>))
        else Inr s)"

definition removeProvider :: "env \<Rightarrow> address \<Rightarrow> contract \<Rightarrow> error + contract" where
  "removeProvider e provider s =
     (if msg_sender e \<noteq> owner s then Inl NotOwner
      else if isProvider s provider
        then Inr (emit (ProviderRemoved provider)
                    (s\<lparr>isProvider := (isProvider s)(provider := False)\<rparr>))
        else Inr s)"

definition setPaused :: "env \<Rightarrow> bool \<Rightarrow> contract \<Rightarrow> error + contract" where
  "setPaused e p s =
     (if msg_sender e \<noteq> owner s then Inl NotOwner
      else Inr (emit (PauseToggled p) (s\<lparr>paused := p\<rparr>)))"

definition setCooldownSeconds :: "env \<Rightarrow> uint256 \<Rightarrow> contract \<Rightarrow> error + contract" where
  "setCooldownSeconds e newCooldownSeconds s =
     (if msg_sender e \<noteq> owner s then Inl NotOwner
      else let oldCooldown = cooldownSeconds s
           in Inr (emit (CooldownSecondsSet oldCooldown newCooldownSeconds)
                     (s\<lparr>cooldownSeconds := newCooldownSeconds\<rparr>)))"

definition openBatch :: "env \<Rightarrow> contract \<Rightarrow> error + contract" where
  "openBatch e s =
     (if msg_sender e \<noteq> owner s then Inl NotOwner
      else if paused s then Inl Paused
      else case checked_add (currentBatchId s) 1 of
             Inl err \<Rightarrow> Inl err
           | Inr n \<Rightarrow>
               Inr (emit (BatchOpened n)
                      (s\<lparr>currentBatchId := n, isBatchOpen := (isBatchOpen s)(n := True)\<rparr>)))"

definition closeBatch :: "env \<Rightarrow> uint256 \<Rightarrow> contract \<Rightarrow> error + contract" where
  "closeBatch e b s =
     (if msg_sender e \<noteq> owner s then Inl NotOwner
      else if \<not> isBatchOpen s b then Inl BatchClosedOrNonExistent
      else Inr (emit (BatchClosed b) (s\<lparr>isBatchOpen := (isBatchOpen s)(b := False)\<rparr>)))"

text \<open>
  Lines 125 to 131 of \<open>submitEncryptedComputeResource\<close>: what the function does once its
  gates are passed and the submission time is written.
\<close>

definition submit_effects :: "'h platform \<Rightarrow> env \<Rightarrow> uint256 \<Rightarrow> 'h \<Rightarrow> 'h \<Rightarrow> contract \<Rightarrow> contract" where
  "submit_effects P e b encryptedComputeUnits encryptedLendAmount s =
     (let s1 = initIfNeeded P encryptedComputeUnits s;
          s2 = initIfNeeded P encryptedLendAmount s1;
          s3 = s2\<lparr>batchTotalEncryptedComputeUnits :=
                    (batchTotalEncryptedComputeUnits s2)
                      (b := FHE_toBytes32 P (FHE_add P encryptedComputeUnits
                              (FHE_asEuint32 P (batchTotalEncryptedComputeUnits s2 b))))\<rparr>;
          s4 = s3\<lparr>batchTotalEncryptedLendAmounts :=
                    (batchTotalEncryptedLendAmounts s3)
                      (b := FHE_toBytes32 P (FHE_add P encryptedLendAmount
                              (FHE_asEuint32 P (batchTotalEncryptedLendAmounts s3 b))))\<rparr>
      in emit (ComputeResourceSubmitted (msg_sender e) b
                 (FHE_toBytes32 P encryptedComputeUnits) (FHE_toBytes32 P encryptedLendAmount)) s4)"

definition submitEncryptedComputeResource ::
  "'h platform \<Rightarrow> env \<Rightarrow> uint256 \<Rightarrow> 'h \<Rightarrow> 'h \<Rightarrow> contract \<Rightarrow> error + contract" where
  "submitEncryptedComputeResource P e b encryptedComputeUnits encryptedLendAmount s =
     (if \<not> isProvider s (msg_sender e) then Inl NotProvider
      else if paused s then Inl Paused
      else case checked_add (lastSubmissionTime s (msg_sender e)) (cooldownSeconds s) of
             Inl err \<Rightarrow> Inl err
           | Inr ready \<Rightarrow>
               if block_timestamp e < ready then Inl CooldownActive
               else if \<not> isBatchOpen s b then Inl BatchClosedOrNonExistent
               else Inr (submit_effects P e b encryptedComputeUnits encryptedLendAmount
                           (s\<lparr>lastSubmissionTime :=
                                (lastSubmissionTime s)(msg_sender e := block_timestamp e)\<rparr>)))"

text \<open>
  Lines 142 to 152 of \<open>requestBatchDecryption\<close>. \<open>requestId\<close> is what
  \<open>FHE.requestDecryption\<close> returns: the identifier that the external decryption service
  issues for this request.
\<close>

definition request_effects :: "'h platform \<Rightarrow> uint256 \<Rightarrow> uint256 \<Rightarrow> contract \<Rightarrow> contract" where
  "request_effects P b requestId s =
     (let cts = [batchTotalEncryptedComputeUnits s b, batchTotalEncryptedLendAmounts s b];
          h = hashCiphertexts P cts;
          s1 = s\<lparr>decryptionContexts :=
                   (decryptionContexts s)
                     (requestId := \<lparr>batchId = b, stateHash = h, processed = False\<rparr>)\<rparr>
      in emit (DecryptionRequested requestId b h) s1)"

definition requestBatchDecryption ::
  "'h platform \<Rightarrow> env \<Rightarrow> uint256 \<Rightarrow> uint256 \<Rightarrow> contract \<Rightarrow> error + contract" where
  "requestBatchDecryption P e b requestId s =
     (if msg_sender e \<noteq> owner s then Inl NotOwner
      else if paused s then Inl Paused
      else case checked_add (lastDecryptionRequestTime s (msg_sender e)) (cooldownSeconds s) of
             Inl err \<Rightarrow> Inl err
           | Inr ready \<Rightarrow>
               if block_timestamp e < ready then Inl CooldownActive
               else if isBatchOpen s b then Inl BatchClosedOrNonExistent
               else Inr (request_effects P b requestId
                           (s\<lparr>lastDecryptionRequestTime :=
                                (lastDecryptionRequestTime s)(msg_sender e := block_timestamp e)\<rparr>)))"

definition myCallback :: "'h platform \<Rightarrow> uint256 \<Rightarrow> bytes \<Rightarrow> bytes \<Rightarrow> contract \<Rightarrow> error + contract" where
  "myCallback P requestId cleartexts prf s =
     (if processed (decryptionContexts s requestId) then Inl ReplayDetected
      else let b = batchId (decryptionContexts s requestId)
      in if \<not> isBatchOpen s b \<and> batchTotalEncryptedComputeUnits s b = 0 then Inl InvalidBatchId
      else let cts = [batchTotalEncryptedComputeUnits s b, batchTotalEncryptedLendAmounts s b];
               currentHash = hashCiphertexts P cts
      in if currentHash \<noteq> stateHash (decryptionContexts s requestId) then Inl StateMismatch
      else if \<not> FHE_checkSignatures P requestId cleartexts prf then Inl CheckSignaturesReverted
      else case abi_decode_uint256 cleartexts of
             None \<Rightarrow> Inl AbiDecodeReverted
           | Some totalComputeUnits \<Rightarrow>
               let totalLendAmount = mload_second_word cleartexts (memory_behind P cleartexts prf)
               in Inr (emit (DecryptionCompleted requestId b totalComputeUnits totalLendAmount)
                         (s\<lparr>decryptionContexts :=
                              (decryptionContexts s)
                                (requestId := (decryptionContexts s requestId)\<lparr>processed := True\<rparr>)\<rparr>)))"

section \<open>Transactions and reachable states\<close>

datatype 'h call =
    TransferOwnership address
  | AddProvider address
  | RemoveProvider address
  | SetPaused bool
  | SetCooldownSeconds uint256
  | OpenBatch
  | CloseBatch uint256
  | SubmitEncryptedComputeResource uint256 'h 'h
  | RequestBatchDecryption uint256 uint256
  | MyCallback uint256 bytes bytes

fun step :: "'h platform \<Rightarrow> env \<Rightarrow> 'h call \<Rightarrow> contract \<Rightarrow> error + contract" where
  "step P e (TransferOwnership a) s = transferOwnership e a s"
| "step P e (AddProvider a) s = addProvider e a s"
| "step P e (RemoveProvider a) s = removeProvider e a s"
| "step P e (SetPaused p) s = setPaused e p s"
| "step P e (SetCooldownSeconds c) s = setCooldownSeconds e c s"
| "step P e OpenBatch s = openBatch e s"
| "step P e (CloseBatch b) s = closeBatch e b s"
| "step P e (SubmitEncryptedComputeResource b x y) s = submitEncryptedComputeResource P e b x y s"
| "step P e (RequestBatchDecryption b r) s = requestBatchDecryption P e b r s"
| "step P e (MyCallback r c p) s = myCallback P r c p s"

text \<open>A transaction that reverts leaves the storage and the log as they were.\<close>

definition exec :: "'h platform \<Rightarrow> env \<times> 'h call \<Rightarrow> contract \<Rightarrow> contract" where
  "exec P tx s = (case step P (fst tx) (snd tx) s of Inl err \<Rightarrow> s | Inr s' \<Rightarrow> s')"

fun run :: "'h platform \<Rightarrow> (env \<times> 'h call) list \<Rightarrow> contract \<Rightarrow> contract" where
  "run P [] s = s"
| "run P (tx # txs) s = run P txs (exec P tx s)"

definition reachable :: "'h platform \<Rightarrow> contract \<Rightarrow> bool" where
  "reachable P s \<longleftrightarrow> (\<exists>d txs. s = run P txs (constructor d))"

section \<open>A mock of the platform, for evaluating the model\<close>

text \<open>
  The handles of the mock are words, as \<open>euint32\<close> is a \<open>bytes32\<close> underneath. The handle of
  a ciphertext carries the plaintext in bits 32 to 63 above the constant 1: no ciphertext
  has the zero handle, which stays the mark of a value that is not initialised, and the low
  32 bits of a handle are not its plaintext.
\<close>

definition mock_encrypt :: "32 word \<Rightarrow> uint256" where
  "mock_encrypt v = ucast v * 2 ^ 32 + 1"

definition mock_decrypt :: "uint256 \<Rightarrow> 32 word" where
  "mock_decrypt h = ucast (h div 2 ^ 32)"

text \<open>The 32 bytes of a word, the most significant first.\<close>

definition be_bytes32 :: "uint256 \<Rightarrow> bytes" where
  "be_bytes32 w = map (\<lambda>i. ucast (drop_bit (8 * (31 - i)) w)) [0..<32]"

text \<open>
  \<open>FHE.add\<close> adds the plaintexts. \<open>FHE.asEuint32\<close> is the conversion of an integer to a
  ciphertext: it encrypts the low 32 bits of the word it is given. \<open>FHE.toBytes32\<close> unwraps
  the handle. A decryption proof is accepted when it is the single byte 1, and the hash is
  a polynomial of the two handles and the address. Behind the data of \<open>cleartexts\<close> the
  memory holds the zero padding of the array up to a multiple of 32 bytes, then the length
  word and the data of \<open>proof\<close>: the decoder of the call data copies the two arrays into
  memory one after the other.
\<close>

definition mock_platform :: "uint256 platform" where
  "mock_platform =
     \<lparr>self_address = 1,
      FHE_add = (\<lambda>x y. mock_encrypt (mock_decrypt x + mock_decrypt y)),
      FHE_asEuint32 = (\<lambda>w. mock_encrypt (ucast w)),
      FHE_toBytes32 = (\<lambda>h. h),
      FHE_isInitialized = (\<lambda>h. h \<noteq> 0),
      FHE_checkSignatures = (\<lambda>r c p. p = [1]),
      keccak256_abi_encode = (\<lambda>cts a. foldl (\<lambda>h w. h * 31 + w) (ucast a) cts),
      memory_behind =
        (\<lambda>c p. replicate ((32 - length c mod 32) mod 32) 0
                 @ be_bytes32 (of_nat (length p)) @ p)\<rparr>"

text \<open>Three callers: address 1 deploys the contract, 2 is made a provider, 3 is neither.\<close>

definition owner_env :: "uint256 \<Rightarrow> env" where
  "owner_env t = \<lparr>msg_sender = 1, block_timestamp = t\<rparr>"

definition provider_env :: "uint256 \<Rightarrow> env" where
  "provider_env t = \<lparr>msg_sender = 2, block_timestamp = t\<rparr>"

definition stranger_env :: "uint256 \<Rightarrow> env" where
  "stranger_env t = \<lparr>msg_sender = 3, block_timestamp = t\<rparr>"

definition deployed :: contract where
  "deployed = constructor (owner_env 0)"

text \<open>The contract after the owner has registered provider 2 and opened batch 1.\<close>

definition batch1_open :: contract where
  "batch1_open = run mock_platform [(owner_env 1, AddProvider 2), (owner_env 2, OpenBatch)] deployed"

section \<open>Notions used in the statements\<close>

text \<open>Whether a call is a decryption request to which the service gives the identifier \<open>r\<close>.\<close>

fun is_request_for :: "uint256 \<Rightarrow> 'h call \<Rightarrow> bool" where
  "is_request_for r (RequestBatchDecryption b r') = (r' = r)"
| "is_request_for r c = False"

text \<open>
  The specification has the external decryption service issue the identifier that
  identifies a request. A sequence of transactions in which the service gives \<open>r\<close> to no
  new request:
\<close>

definition never_reissued :: "uint256 \<Rightarrow> (env \<times> 'h call) list \<Rightarrow> bool" where
  "never_reissued r txs = list_all (\<lambda>tx. \<not> is_request_for r (snd tx)) txs"

text \<open>The \<open>DecryptionCompleted\<close> events of the log that carry the request identifier \<open>r\<close>.\<close>

fun is_completion_of :: "uint256 \<Rightarrow> event \<Rightarrow> bool" where
  "is_completion_of r (DecryptionCompleted r' b u l) = (r' = r)"
| "is_completion_of r ev = False"

definition completions :: "uint256 \<Rightarrow> contract \<Rightarrow> event list" where
  "completions r s = filter (is_completion_of r) (events s)"




text \<open>
  A library whose sums never have the zero handle, the word that the contract reads as a
  batch without data on line 159.
\<close>

definition never_zero_sum :: "'h platform \<Rightarrow> bool" where
  "never_zero_sum P \<longleftrightarrow> (\<forall>x y. FHE_toBytes32 P (FHE_add P x y) \<noteq> 0)"

text \<open>
  A request identifier under which \<open>requestBatchDecryption\<close> has stored a context: the log
  holds a \<open>DecryptionRequested\<close> event for it.
\<close>

fun is_request_event :: "uint256 \<Rightarrow> event \<Rightarrow> bool" where
  "is_request_event r (DecryptionRequested r' b h) = (r' = r)"
| "is_request_event r ev = False"

definition request_stored :: "contract \<Rightarrow> uint256 \<Rightarrow> bool" where
  "request_stored s r = list_ex (is_request_event r) (events s)"

text \<open>
  The invariant of the commitments: a batch without compute-unit accumulator has no
  lend-amount accumulator, and the commitment of a stored request is the hash of two
  unwritten accumulators unless the compute-unit accumulator of its batch is written.
\<close>

definition commitments_wf :: "'h platform \<Rightarrow> contract \<Rightarrow> bool" where
  "commitments_wf P s \<longleftrightarrow>
     (\<forall>b. batchTotalEncryptedComputeUnits s b = 0 \<longrightarrow> batchTotalEncryptedLendAmounts s b = 0) \<and>
     (\<forall>r. request_stored s r \<longrightarrow>
        stateHash (decryptionContexts s r) = hashCiphertexts P [0, 0]
        \<or> batchTotalEncryptedComputeUnits s (batchId (decryptionContexts s r)) \<noteq> 0)"

text \<open>Whether a transaction transfers the ownership to the null address.\<close>

fun is_transfer_to_null :: "'h call \<Rightarrow> bool" where
  "is_transfer_to_null (TransferOwnership a) = (a = 0)"
| "is_transfer_to_null c = False"

text \<open>
  The invariant of the batch registry: identifier 0 and the identifiers above
  \<open>currentBatchId\<close> are not open and their accumulators are unwritten, and no request bound
  to batch 0 is ever resolved.
\<close>

definition batches_wf :: "contract \<Rightarrow> bool" where
  "batches_wf s \<longleftrightarrow>
     (\<forall>b. b = 0 \<or> currentBatchId s < b \<longrightarrow>
        \<not> isBatchOpen s b \<and> batchTotalEncryptedComputeUnits s b = 0
        \<and> batchTotalEncryptedLendAmounts s b = 0) \<and>
     (\<forall>r. processed (decryptionContexts s r) \<longrightarrow> batchId (decryptionContexts s r) \<noteq> 0)"

text \<open>A batch identifier that was allocated and is closed.\<close>

definition closed_batch :: "contract \<Rightarrow> uint256 \<Rightarrow> bool" where
  "closed_batch s b \<longleftrightarrow> \<not> isBatchOpen s b \<and> b \<le> currentBatchId s"

section \<open>Scenarios on the mock platform\<close>

text \<open>Batch 1 closed by the owner before any submission.\<close>

definition batch1_closed_empty :: contract where
  "batch1_closed_empty = exec mock_platform (owner_env 3, CloseBatch 1) batch1_open"

text \<open>
  The end-to-end scenario of the specification: two submissions (10, 5) and (7, 3) into
  batch 1, the batch closed, its decryption requested under the identifier 42, and the
  payload (17, 8) of the specification as two words of 32 bytes.
\<close>

definition e2e_txs :: "(env \<times> uint256 call) list" where
  "e2e_txs =
     [(provider_env 3, SubmitEncryptedComputeResource 1 (mock_encrypt 10) (mock_encrypt 5)),
      (provider_env 4, SubmitEncryptedComputeResource 1 (mock_encrypt 7) (mock_encrypt 3)),
      (owner_env 5, CloseBatch 1),
      (owner_env 6, RequestBatchDecryption 1 42)]"

definition batch1_requested :: contract where
  "batch1_requested = run mock_platform e2e_txs batch1_open"

definition cleartexts_17_8 :: bytes where
  "cleartexts_17_8 = replicate 31 0 @ [17] @ replicate 31 0 @ [8]"

definition batch1_resolved :: contract where
  "batch1_resolved =
     exec mock_platform (stranger_env 7, MyCallback 42 cleartexts_17_8 [1]) batch1_requested"

definition after_resolution_txs :: "(env \<times> uint256 call) list" where
  "after_resolution_txs =
     [(stranger_env 8, MyCallback 42 cleartexts_17_8 [1]), (owner_env 9, OpenBatch)]"



text \<open>
  A decryption of batch 1 is requested before the batch is opened; the batch is then opened
  and receives a submission.
\<close>

definition mismatch_txs :: "(env \<times> uint256 call) list" where
  "mismatch_txs =
     [(owner_env 1, AddProvider 2),
      (owner_env 2, RequestBatchDecryption 1 77),
      (owner_env 3, OpenBatch),
      (provider_env 4, SubmitEncryptedComputeResource 1 (mock_encrypt 10) (mock_encrypt 5))]"

definition mismatch_state :: contract where
  "mismatch_state = run mock_platform mismatch_txs deployed"


text \<open>
  A decryption of batch 1 is requested before the batch is opened, and resolved while the
  batch is open and empty; the batch is then closed.
\<close>

definition replay_txs :: "(env \<times> uint256 call) list" where
  "replay_txs =
     [(owner_env 1, RequestBatchDecryption 1 77),
      (owner_env 2, OpenBatch),
      (stranger_env 3, MyCallback 77 cleartexts_17_8 [1]),
      (owner_env 4, CloseBatch 1)]"

definition replay_state :: contract where
  "replay_state = run mock_platform replay_txs deployed"

text \<open>Provider 2 submits at time 5; the owner then sets the largest cooldown.\<close>

definition cooldown_max_txs :: "(env \<times> uint256 call) list" where
  "cooldown_max_txs =
     [(provider_env 5, SubmitEncryptedComputeResource 1 (mock_encrypt 10) (mock_encrypt 5)),
      (owner_env 6, SetCooldownSeconds (2 ^ 256 - 1))]"

definition cooldown_max_state :: contract where
  "cooldown_max_state = run mock_platform cooldown_max_txs batch1_open"

text \<open>A cooldown of 60 seconds, and a submission of provider 2 at time 100.\<close>

definition cooldown_60_state :: contract where
  "cooldown_60_state =
     run mock_platform
       [(owner_env 3, SetCooldownSeconds 60),
        (provider_env 100, SubmitEncryptedComputeResource 1 (mock_encrypt 10) (mock_encrypt 5))] batch1_open"

text \<open>The end-to-end scenario paused by the owner after the decryption request.\<close>

definition paused_state :: contract where
  "paused_state = exec mock_platform (owner_env 7, SetPaused True) batch1_requested"

text \<open>The owner transfers the ownership to the null address.\<close>

definition null_owner_state :: contract where
  "null_owner_state = exec mock_platform (owner_env 1, TransferOwnership 0) deployed"

text \<open>A decryption request on batch 1, closed without any submission.\<close>

definition empty_requested :: contract where
  "empty_requested =
     exec mock_platform (owner_env 4, RequestBatchDecryption 1 42) batch1_closed_empty"

section \<open>The mock encryption\<close>

lemma unat_32_bound: "unat (v :: 32 word) < 4294967296"
  using unsigned_less [of v, where ?'a = nat] by simp

lemma unat_mock_encrypt: "unat (mock_encrypt v) = unat v * 4294967296 + 1"
proof -
  have small: "unat v * 4294967296 + 1 < (2::nat) ^ 256"
    using unat_32_bound [of v] by simp
  have "word_of_nat (unat v * 4294967296 + 1) = mock_encrypt v"
    by (simp add: mock_encrypt_def)
  from of_nat_inverse [OF this] small show ?thesis by simp
qed

lemma mock_encrypt_nonzero: "mock_encrypt v \<noteq> 0"
proof
  assume "mock_encrypt v = 0"
  then have "unat (mock_encrypt v) = 0" by simp
  then show False by (simp add: unat_mock_encrypt)
qed

lemma mock_decrypt_encrypt: "mock_decrypt (mock_encrypt v) = v"
proof -
  have "unat (mock_encrypt v div 2 ^ 32) = unat v"
    by (simp add: unat_div unat_mock_encrypt)
  then have "unat (mock_decrypt (mock_encrypt v)) = unat v mod 4294967296"
    by (simp add: mock_decrypt_def unsigned_ucast_eq take_bit_eq_mod)
  then have "unat (mock_decrypt (mock_encrypt v)) = unat v"
    using unat_32_bound [of v] by simp
  then show ?thesis by (simp add: word_unat_eq_iff)
qed

lemma mock_encrypt_low: "(ucast (mock_encrypt v) :: 32 word) = 1"
proof -
  have "(1 + unat v * 4294967296) mod 4294967296 = 1 mod (4294967296::nat)"
    by (rule mod_mult_self1)
  then have m: "(unat v * 4294967296 + 1) mod 4294967296 = (1::nat)"
    by (simp only: add.commute [of 1] mod_less)
  have "unat (ucast (mock_encrypt v) :: 32 word) = (unat v * 4294967296 + 1) mod 4294967296"
    by (simp only: unsigned_ucast_eq take_bit_eq_mod unat_mock_encrypt) simp
  with m have "unat (ucast (mock_encrypt v) :: 32 word) = 1" by simp
  then show ?thesis by (simp add: word_unat_eq_iff)
qed


lemma mock_never_zero_sum: "never_zero_sum mock_platform"
  by (simp add: never_zero_sum_def mock_platform_def mock_encrypt_nonzero)

section \<open>Arithmetic of the checked addition\<close>

lemmas call_defs = transferOwnership_def addProvider_def removeProvider_def setPaused_def
  setCooldownSeconds_def openBatch_def closeBatch_def submitEncryptedComputeResource_def
  requestBatchDecryption_def myCallback_def submit_effects_def request_effects_def
  initIfNeeded_def emit_def

lemmas scenario_defs = mock_platform_def owner_env_def provider_env_def stranger_env_def
  deployed_def constructor_def exec_def hashCiphertexts_def checked_add_def
  mock_decrypt_encrypt mock_encrypt_low mock_encrypt_nonzero Let_def

lemma unat_add_uint256:
  "unat (a::uint256) + unat (c::uint256) < 2 ^ 256 \<Longrightarrow> unat (a + c) = unat a + unat c"
  using unat_add_lem [of a c] by simp

lemma unat_uint256_bound: "unat (a::uint256) < 2 ^ 256"
  using unsigned_less [of a] by simp

lemma checked_add_one_less: "checked_add c 1 = Inr n \<Longrightarrow> c < n"
  by (auto simp: checked_add_def word_less_nat_alt unat_add_uint256 split: if_splits)

lemma checked_add_elapsed:
  assumes "unat a + unat c \<le> unat (t::uint256)"
  shows "checked_add a c = Inr (a + c)" and "\<not> t < a + c"
proof -
  have b: "unat a + unat c < 2 ^ 256"
    using assms unat_uint256_bound [of t] by linarith
  then show "checked_add a c = Inr (a + c)" by (simp add: checked_add_def)
  from b have "unat (a + c) = unat a + unat c" by (rule unat_add_uint256)
  with assms show "\<not> t < a + c" by (simp add: word_less_nat_alt)
qed

lemma checked_add_active:
  assumes "unat (t::uint256) < unat a + unat c" "unat a + unat c < 2 ^ 256"
  shows "checked_add a c = Inr (a + c)" and "t < a + c"
proof -
  show "checked_add a c = Inr (a + c)" using assms by (simp add: checked_add_def)
  from assms have "unat (a + c) = unat a + unat c" by (simp add: unat_add_uint256)
  with assms show "t < a + c" by (simp add: word_less_nat_alt)
qed

lemma be_uint256_zeros: "be_uint256 (replicate n 0 @ bs) = be_uint256 bs"
  by (induction n) (simp_all add: be_uint256_def)

section \<open>What one transaction can change\<close>

lemma exec_currentBatchId: "currentBatchId s \<le> currentBatchId (exec P (e, c) s)"
  by (cases c)
     (auto simp: exec_def call_defs Let_def dest: checked_add_one_less
           split: if_splits sum.splits option.splits)

lemma exec_isBatchOpen:
  "isBatchOpen (exec P (e, c) s) b \<Longrightarrow> isBatchOpen s b \<or> currentBatchId s < b"
  by (cases c)
     (auto simp: exec_def call_defs Let_def dest: checked_add_one_less
           split: if_splits sum.splits option.splits)

lemma exec_compute_acc:
  "batchTotalEncryptedComputeUnits (exec P (e, c) s) b \<noteq> batchTotalEncryptedComputeUnits s b
     \<Longrightarrow> isBatchOpen s b"
  by (cases c)
     (auto simp: exec_def call_defs Let_def split: if_splits sum.splits option.splits)

lemma exec_batches_wf: "batches_wf s \<Longrightarrow> batches_wf (exec P (e, c) s)"
proof (cases c)
  case OpenBatch
  assume "batches_wf s"
  then show ?thesis
    using OpenBatch
    by (auto simp: batches_wf_def exec_def call_defs Let_def
             dest!: checked_add_one_less split: if_splits sum.splits)
next
  case (SubmitEncryptedComputeResource b x y)
  assume "batches_wf s"
  then show ?thesis
    using SubmitEncryptedComputeResource
    by (auto simp: batches_wf_def exec_def call_defs Let_def split: if_splits sum.splits)
next
  case (MyCallback r cl p)
  assume "batches_wf s"
  then show ?thesis
    using MyCallback
    by (auto simp: batches_wf_def exec_def call_defs Let_def
             split: if_splits sum.splits option.splits)
qed (auto simp: batches_wf_def exec_def call_defs Let_def split: if_splits sum.splits)

lemma run_batches_wf: "batches_wf s \<Longrightarrow> batches_wf (run P txs s)"
proof (induction txs arbitrary: s)
  case Nil
  then show ?case by simp
next
  case (Cons tx txs)
  obtain e c where tx: "tx = (e, c)" by (cases tx)
  from Cons.prems have "batches_wf (exec P tx s)"
    unfolding tx by (rule exec_batches_wf)
  then show ?case by (simp add: Cons.IH)
qed

lemma constructor_batches_wf: "batches_wf (constructor d)"
  by (simp add: batches_wf_def constructor_def emit_def)

lemma reachable_batches_wf: "reachable P s \<Longrightarrow> batches_wf s"
  by (auto simp: reachable_def intro: run_batches_wf constructor_batches_wf)

lemma exec_closed_batch: "closed_batch s b \<Longrightarrow> closed_batch (exec P (e, c) s) b"
proof -
  assume a: "closed_batch s b"
  have "\<not> isBatchOpen (exec P (e, c) s) b"
    using a exec_isBatchOpen [of P e c s b] by (auto simp: closed_batch_def)
  moreover have "b \<le> currentBatchId (exec P (e, c) s)"
    using a exec_currentBatchId [of s P e c] by (auto simp: closed_batch_def)
  ultimately show ?thesis by (simp add: closed_batch_def)
qed

lemma run_closed_batch: "closed_batch s b \<Longrightarrow> closed_batch (run P txs s) b"
proof (induction txs arbitrary: s)
  case Nil
  then show ?case by simp
next
  case (Cons tx txs)
  obtain e c where tx: "tx = (e, c)" by (cases tx)
  from Cons.prems have "closed_batch (exec P tx s) b"
    unfolding tx by (rule exec_closed_batch)
  then show ?case by (simp add: Cons.IH)
qed

lemma run_closed_compute_acc:
  "closed_batch s b \<Longrightarrow>
     batchTotalEncryptedComputeUnits (run P txs s) b = batchTotalEncryptedComputeUnits s b"
proof (induction txs arbitrary: s)
  case Nil
  then show ?case by simp
next
  case (Cons tx txs)
  obtain e c where tx: "tx = (e, c)" by (cases tx)
  from Cons.prems have cl: "closed_batch (exec P tx s) b"
    unfolding tx by (rule exec_closed_batch)
  have "batchTotalEncryptedComputeUnits (exec P tx s) b = batchTotalEncryptedComputeUnits s b"
    using Cons.prems exec_compute_acc [of P e c s b] by (auto simp: closed_batch_def tx)
  with Cons.IH [OF cl] show ?case by simp
qed

lemma exec_processed:
  "processed (decryptionContexts s r) \<Longrightarrow> \<not> is_request_for r c \<Longrightarrow>
     processed (decryptionContexts (exec P (e, c) s) r)"
  by (cases c)
     (auto simp: exec_def call_defs Let_def split: if_splits sum.splits option.splits)

lemma exec_completions:
  "processed (decryptionContexts s r) \<Longrightarrow> completions r (exec P (e, c) s) = completions r s"
  by (cases c)
     (auto simp: exec_def call_defs completions_def Let_def
           split: if_splits sum.splits option.splits)

lemma run_processed:
  "processed (decryptionContexts s r) \<Longrightarrow> never_reissued r txs \<Longrightarrow>
     processed (decryptionContexts (run P txs s) r) \<and> completions r (run P txs s) = completions r s"
proof (induction txs arbitrary: s)
  case Nil
  then show ?case by simp
next
  case (Cons tx txs)
  obtain e c where tx: "tx = (e, c)" by (cases tx)
  from Cons.prems have nr: "\<not> is_request_for r c" and rest: "never_reissued r txs"
    by (simp_all add: never_reissued_def tx)
  have p: "processed (decryptionContexts (exec P tx s) r)"
    unfolding tx using Cons.prems(1) nr by (rule exec_processed)
  have "completions r (exec P tx s) = completions r s"
    unfolding tx using Cons.prems(1) by (rule exec_completions)
  with Cons.IH [OF p rest] show ?case by simp
qed

lemma myCallback_marks:
  "myCallback P r c p s = Inr s1 \<Longrightarrow> processed (decryptionContexts s1 r)"
  by (auto simp: myCallback_def emit_def Let_def split: if_splits option.splits)

section \<open>The scenarios, evaluated\<close>

lemma batch1_open_eval:
  "owner batch1_open = 1" "\<not> paused batch1_open" "cooldownSeconds batch1_open = 0"
  "isBatchOpen batch1_open b = (b = 1)" "isProvider batch1_open a = (a = 2)"
  "lastDecryptionRequestTime batch1_open a = 0"
  "lastSubmissionTime batch1_open a = 0" "currentBatchId batch1_open = 1"
  "batchTotalEncryptedComputeUnits batch1_open b = 0"
  "batchTotalEncryptedLendAmounts batch1_open b = 0"
  "decryptionContexts batch1_open r = \<lparr>batchId = 0, stateHash = 0, processed = False\<rparr>"
  by (auto simp add: batch1_open_def scenario_defs call_defs)

lemma batch1_open_reachable: "reachable mock_platform batch1_open"
  unfolding reachable_def batch1_open_def deployed_def by blast

lemma batch1_requested_eval:
  "owner batch1_requested = 1" "\<not> paused batch1_requested"
  "isBatchOpen batch1_requested b = False"
  "batchTotalEncryptedComputeUnits batch1_requested 1 = mock_encrypt 8"
  "batchTotalEncryptedLendAmounts batch1_requested 1 = mock_encrypt 4"
  "decryptionContexts batch1_requested 42 =
     \<lparr>batchId = 1,
      stateHash = hashCiphertexts mock_platform [mock_encrypt 8, mock_encrypt 4],
      processed = False\<rparr>"
  "completions 42 batch1_requested = []"
  by (auto simp add: batch1_requested_def e2e_txs_def batch1_open_eval scenario_defs call_defs
        completions_def batch1_open_def)

lemma batch1_resolved_eval:
  "myCallback mock_platform 42 cleartexts_17_8 [1] batch1_requested = Inr batch1_resolved"
  "completions 42 batch1_resolved = [DecryptionCompleted 42 1 17 8]"
proof -
  show "myCallback mock_platform 42 cleartexts_17_8 [1] batch1_requested = Inr batch1_resolved"
    by (simp add: batch1_resolved_def exec_def myCallback_def batch1_requested_eval
          mock_encrypt_nonzero mock_platform_def hashCiphertexts_def abi_decode_uint256_def
          cleartexts_17_8_def Let_def)
  have "be_uint256 [17] = 17" "be_uint256 [8] = 8"
    by (simp_all add: be_uint256_def)
  then show "completions 42 batch1_resolved = [DecryptionCompleted 42 1 17 8]"
    using batch1_requested_eval(7)
    by (simp add: batch1_resolved_def exec_def myCallback_def batch1_requested_eval
          mock_encrypt_nonzero mock_platform_def hashCiphertexts_def abi_decode_uint256_def
          cleartexts_17_8_def Let_def completions_def emit_def mload_second_word_def
          be_uint256_zeros)
qed

section \<open>Replay protection of the callback\<close>

text \<open>
  Claim C2. Once \<open>myCallback\<close> has succeeded for a request identifier, the stored context
  is marked as processed. From then on, whatever transactions follow (so long as the
  decryption service does not give the same identifier to a new request, which would store a
  fresh context under it), every call of \<open>myCallback\<close> with that identifier fails with
  \<open>ReplayDetected\<close>, for every payload and proof: the check is the first statement of the
  function. The failed call leaves the state as it was, and the \<open>DecryptionCompleted\<close>
  events of that identifier in the log stay those of the first resolution.
\<close>

theorem callback_resolves_at_most_once:
  assumes "myCallback P r c p s = Inr s1" and "never_reissued r txs"
  shows "processed (decryptionContexts s1 r) \<and>
         myCallback P r c' p' (run P txs s1) = Inl ReplayDetected \<and>
         exec P (e, MyCallback r c' p') (run P txs s1) = run P txs s1 \<and>
         completions r (run P txs s1) = completions r s1"
proof -
  have m: "processed (decryptionContexts s1 r)"
    using assms(1) by (rule myCallback_marks)
  from run_processed [OF m assms(2), of P]
  have later: "processed (decryptionContexts (run P txs s1) r)"
    and same: "completions r (run P txs s1) = completions r s1"
    by simp_all
  from later have replay: "myCallback P r c' p' (run P txs s1) = Inl ReplayDetected"
    by (simp add: myCallback_def)
  then have "exec P (e, MyCallback r c' p') (run P txs s1) = run P txs s1"
    by (simp add: exec_def)
  with m replay same show ?thesis by simp
qed

theorem callback_resolves_at_most_once_witness:
  "myCallback mock_platform 42 cleartexts_17_8 [1] batch1_requested = Inr batch1_resolved \<and>
   never_reissued 42 after_resolution_txs \<and>
   processed (decryptionContexts batch1_resolved 42) \<and>
   myCallback mock_platform 42 cleartexts_17_8 [1]
     (run mock_platform after_resolution_txs batch1_resolved) = Inl ReplayDetected \<and>
   completions 42 (run mock_platform after_resolution_txs batch1_resolved)
     = [DecryptionCompleted 42 1 17 8]"
proof -
  have h1: "myCallback mock_platform 42 cleartexts_17_8 [1] batch1_requested = Inr batch1_resolved"
    by (rule batch1_resolved_eval(1))
  have h2: "never_reissued 42 after_resolution_txs"
    by (simp add: never_reissued_def after_resolution_txs_def)
  from callback_resolves_at_most_once [OF h1 h2, of cleartexts_17_8 "[1]" "stranger_env 10"]
  show ?thesis using h1 h2 by (simp add: batch1_resolved_eval(2))
qed

section \<open>The batch registry\<close>

text \<open>
  Claim C7. A batch that has been closed is never open again: in a reachable state, after a
  successful \<open>closeBatch\<close> of \<open>b\<close>, no sequence of transactions sets \<open>isBatchOpen b\<close> back.
  Every later \<open>openBatch\<close> that succeeds allocates \<open>currentBatchId + 1\<close> (without
  wrap-around), which is not \<open>b\<close>. Closing leaves both accumulators of every batch as they
  were.
\<close>

theorem closed_batch_never_reopens:
  assumes "reachable P s" and "closeBatch e b s = Inr s1"
  shows "(\<forall>txs. \<not> isBatchOpen (run P txs s1) b) \<and>
         (\<forall>txs e' s2. openBatch e' (run P txs s1) = Inr s2 \<longrightarrow>
            currentBatchId s2 = currentBatchId (run P txs s1) + 1 \<and>
            unat (currentBatchId s2) = unat (currentBatchId (run P txs s1)) + 1 \<and>
            isBatchOpen s2 = (isBatchOpen (run P txs s1))(currentBatchId s2 := True) \<and>
            currentBatchId s2 \<noteq> b) \<and>
         batchTotalEncryptedComputeUnits s1 = batchTotalEncryptedComputeUnits s \<and>
         batchTotalEncryptedLendAmounts s1 = batchTotalEncryptedLendAmounts s"
proof -
  from assms(2) have op: "isBatchOpen s b"
    and s1: "s1 = emit (BatchClosed b) (s\<lparr>isBatchOpen := (isBatchOpen s)(b := False)\<rparr>)"
    by (auto simp: closeBatch_def split: if_splits)
  from reachable_batches_wf [OF assms(1)] op have "\<not> currentBatchId s < b"
    by (auto simp: batches_wf_def)
  then have cl: "closed_batch s1 b"
    by (simp add: closed_batch_def s1 emit_def)
  have never: "\<not> isBatchOpen (run P txs s1) b" for txs
    using run_closed_batch [OF cl, of P txs] by (simp add: closed_batch_def)
  have fresh: "currentBatchId s2 = currentBatchId (run P txs s1) + 1 \<and>
            unat (currentBatchId s2) = unat (currentBatchId (run P txs s1)) + 1 \<and>
            isBatchOpen s2 = (isBatchOpen (run P txs s1))(currentBatchId s2 := True) \<and>
            currentBatchId s2 \<noteq> b"
    if o: "openBatch e' (run P txs s1) = Inr s2" for txs e' s2
  proof -
    let ?t = "run P txs s1"
    from o have n: "unat (currentBatchId ?t) + unat (1::uint256) < 2 ^ 256"
      and s2: "s2 = emit (BatchOpened (currentBatchId ?t + 1))
                 (?t\<lparr>currentBatchId := currentBatchId ?t + 1,
                      isBatchOpen := (isBatchOpen ?t)(currentBatchId ?t + 1 := True)\<rparr>)"
      by (auto simp: openBatch_def checked_add_def split: if_splits)
    have u: "unat (currentBatchId ?t + 1) = unat (currentBatchId ?t) + 1"
      using unat_add_uint256 [OF n] by simp
    have "b \<le> currentBatchId ?t"
      using run_closed_batch [OF cl, of P txs] by (simp add: closed_batch_def)
    then have "unat b \<le> unat (currentBatchId ?t)" by (simp add: word_le_nat_alt)
    with u have "currentBatchId ?t + 1 \<noteq> b" by auto
    with u show ?thesis by (simp add: s2 emit_def)
  qed
  have "batchTotalEncryptedComputeUnits s1 = batchTotalEncryptedComputeUnits s"
    "batchTotalEncryptedLendAmounts s1 = batchTotalEncryptedLendAmounts s"
    by (simp_all add: s1 emit_def)
  with never fresh show ?thesis by blast
qed

theorem closed_batch_never_reopens_witness:
  "reachable mock_platform batch1_open \<and>
   closeBatch (owner_env 3) 1 batch1_open = Inr batch1_closed_empty \<and>
   \<not> isBatchOpen (run mock_platform [(owner_env 4, OpenBatch)] batch1_closed_empty) 1 \<and>
   batchTotalEncryptedComputeUnits batch1_closed_empty
     = batchTotalEncryptedComputeUnits batch1_open"
proof -
  have h2: "closeBatch (owner_env 3) 1 batch1_open = Inr batch1_closed_empty"
    by (simp add: batch1_closed_empty_def exec_def closeBatch_def batch1_open_eval owner_env_def)
  from closed_batch_never_reopens [OF batch1_open_reachable h2]
  show ?thesis using batch1_open_reachable h2 by blast
qed

section \<open>Requesting a decryption\<close>

text \<open>
  Claim C4. When the owner calls \<open>requestBatchDecryption\<close> on an open batch, with the
  contract not paused and the cooldown of the caller elapsed, the call fails with
  \<open>BatchClosedOrNonExistent\<close>. After the owner has closed that batch with \<open>closeBatch\<close>, the
  same call succeeds, and it stores under the issued request identifier a context that is
  not processed, bound to the batch and to the hash of its two accumulators.
\<close>

theorem requestBatchDecryption_open_then_closed:
  assumes "msg_sender e = owner s" and "\<not> paused s"
    and "unat (lastDecryptionRequestTime s (msg_sender e)) + unat (cooldownSeconds s)
           \<le> unat (block_timestamp e)"
    and "isBatchOpen s b" and "msg_sender e' = owner s"
  shows "requestBatchDecryption P e b r s = Inl BatchClosedOrNonExistent \<and>
         (\<exists>s1 s2. closeBatch e' b s = Inr s1 \<and>
            requestBatchDecryption P e b r s1 = Inr s2 \<and>
            decryptionContexts s2 r =
              \<lparr>batchId = b,
               stateHash = hashCiphertexts P
                 [batchTotalEncryptedComputeUnits s b, batchTotalEncryptedLendAmounts s b],
               processed = False\<rparr>)"
proof -
  note g = checked_add_elapsed [OF assms(3)]
  have open_fails: "requestBatchDecryption P e b r s = Inl BatchClosedOrNonExistent"
    using assms(1,2,4) g by (simp add: requestBatchDecryption_def)
  define s1 where "s1 = emit (BatchClosed b) (s\<lparr>isBatchOpen := (isBatchOpen s)(b := False)\<rparr>)"
  have c: "closeBatch e' b s = Inr s1"
    using assms(4,5) by (simp add: closeBatch_def s1_def)
  have same: "owner s1 = owner s" "paused s1 = paused s" "cooldownSeconds s1 = cooldownSeconds s"
    "lastDecryptionRequestTime s1 = lastDecryptionRequestTime s" "\<not> isBatchOpen s1 b"
    "batchTotalEncryptedComputeUnits s1 = batchTotalEncryptedComputeUnits s"
    "batchTotalEncryptedLendAmounts s1 = batchTotalEncryptedLendAmounts s"
    by (simp_all add: s1_def emit_def)
  define s2 where "s2 = request_effects P b r
     (s1\<lparr>lastDecryptionRequestTime :=
           (lastDecryptionRequestTime s1)(msg_sender e := block_timestamp e)\<rparr>)"
  have r: "requestBatchDecryption P e b r s1 = Inr s2"
    using assms(1,2) g same by (simp add: requestBatchDecryption_def s2_def)
  have "decryptionContexts s2 r =
              \<lparr>batchId = b,
               stateHash = hashCiphertexts P
                 [batchTotalEncryptedComputeUnits s b, batchTotalEncryptedLendAmounts s b],
               processed = False\<rparr>"
    using same by (simp add: s2_def request_effects_def emit_def Let_def)
  with open_fails c r show ?thesis by blast
qed

theorem requestBatchDecryption_open_then_closed_witness:
  "msg_sender (owner_env 7) = owner batch1_open \<and> \<not> paused batch1_open \<and>
   unat (lastDecryptionRequestTime batch1_open (msg_sender (owner_env 7)))
     + unat (cooldownSeconds batch1_open) \<le> unat (block_timestamp (owner_env 7)) \<and>
   isBatchOpen batch1_open 1 \<and> msg_sender (owner_env 6) = owner batch1_open \<and>
   requestBatchDecryption mock_platform (owner_env 7) 1 42 batch1_open
     = Inl BatchClosedOrNonExistent \<and>
   (\<exists>s1 s2. closeBatch (owner_env 6) 1 batch1_open = Inr s1 \<and>
      requestBatchDecryption mock_platform (owner_env 7) 1 42 s1 = Inr s2 \<and>
      decryptionContexts s2 42 = \<lparr>batchId = 1, stateHash = 961, processed = False\<rparr>)"
proof -
  have h1: "msg_sender (owner_env 7) = owner batch1_open"
    and h2: "\<not> paused batch1_open"
    and h3: "unat (lastDecryptionRequestTime batch1_open (msg_sender (owner_env 7)))
       + unat (cooldownSeconds batch1_open) \<le> unat (block_timestamp (owner_env 7))"
    and h4: "isBatchOpen batch1_open 1"
    and h5: "msg_sender (owner_env 6) = owner batch1_open"
    by (simp_all add: batch1_open_eval owner_env_def)
  have hash: "hashCiphertexts mock_platform
      [batchTotalEncryptedComputeUnits batch1_open 1, batchTotalEncryptedLendAmounts batch1_open 1]
      = 961"
    by (simp add: batch1_open_eval hashCiphertexts_def mock_platform_def)
  from requestBatchDecryption_open_then_closed [OF h1 h2 h3 h4 h5, of mock_platform 42]
  show ?thesis using h1 h2 h3 h4 h5 unfolding hash by blast
qed

text \<open>
  Claim C9. \<open>requestBatchDecryption\<close> does not check that the batch was ever opened. In a
  reachable state, a call of the owner, not paused and with the cooldown elapsed, succeeds
  for every identifier whose \<open>isBatchOpen\<close> flag is false, and stores a context bound to
  that identifier and to the hash of its accumulators. Identifier 0 and the identifiers
  above \<open>currentBatchId\<close> are such identifiers, and their accumulators are zero.
\<close>

theorem requestBatchDecryption_accepts_unopened_batch:
  assumes "reachable P s" and "msg_sender e = owner s" and "\<not> paused s"
    and "unat (lastDecryptionRequestTime s (msg_sender e)) + unat (cooldownSeconds s)
           \<le> unat (block_timestamp e)"
  shows "(\<not> isBatchOpen s b \<longrightarrow>
           (\<exists>s'. requestBatchDecryption P e b r s = Inr s' \<and>
              decryptionContexts s' r =
                \<lparr>batchId = b,
                 stateHash = hashCiphertexts P
                   [batchTotalEncryptedComputeUnits s b, batchTotalEncryptedLendAmounts s b],
                 processed = False\<rparr>)) \<and>
         (b = 0 \<or> currentBatchId s < b \<longrightarrow>
            \<not> isBatchOpen s b \<and> batchTotalEncryptedComputeUnits s b = 0 \<and>
            batchTotalEncryptedLendAmounts s b = 0)"
proof -
  note g = checked_add_elapsed [OF assms(4)]
  have first: "\<exists>s'. requestBatchDecryption P e b r s = Inr s' \<and>
              decryptionContexts s' r =
                \<lparr>batchId = b,
                 stateHash = hashCiphertexts P
                   [batchTotalEncryptedComputeUnits s b, batchTotalEncryptedLendAmounts s b],
                 processed = False\<rparr>"
    if "\<not> isBatchOpen s b"
    using assms(2,3) g that
    by (simp add: requestBatchDecryption_def request_effects_def emit_def Let_def)
  have second: "\<not> isBatchOpen s b \<and> batchTotalEncryptedComputeUnits s b = 0 \<and>
            batchTotalEncryptedLendAmounts s b = 0"
    if "b = 0 \<or> currentBatchId s < b"
    using reachable_batches_wf [OF assms(1)] that by (auto simp: batches_wf_def)
  from first second show ?thesis by blast
qed

theorem requestBatchDecryption_accepts_unopened_batch_witness:
  "reachable mock_platform batch1_open \<and>
   msg_sender (owner_env 7) = owner batch1_open \<and> \<not> paused batch1_open \<and>
   unat (lastDecryptionRequestTime batch1_open (msg_sender (owner_env 7)))
     + unat (cooldownSeconds batch1_open) \<le> unat (block_timestamp (owner_env 7)) \<and>
   currentBatchId batch1_open < 5 \<and> \<not> isBatchOpen batch1_open 5 \<and>
   (\<exists>s'. requestBatchDecryption mock_platform (owner_env 7) 5 99 batch1_open = Inr s' \<and>
      decryptionContexts s' 99 = \<lparr>batchId = 5, stateHash = 961, processed = False\<rparr>)"
proof -
  have h2: "msg_sender (owner_env 7) = owner batch1_open"
    and h3: "\<not> paused batch1_open"
    and h4: "unat (lastDecryptionRequestTime batch1_open (msg_sender (owner_env 7)))
       + unat (cooldownSeconds batch1_open) \<le> unat (block_timestamp (owner_env 7))"
    and h5: "currentBatchId batch1_open < 5" and h6: "\<not> isBatchOpen batch1_open 5"
    by (simp_all add: batch1_open_eval owner_env_def)
  have hash: "hashCiphertexts mock_platform
      [batchTotalEncryptedComputeUnits batch1_open 5, batchTotalEncryptedLendAmounts batch1_open 5]
      = 961"
    by (simp add: batch1_open_eval hashCiphertexts_def mock_platform_def)
  from requestBatchDecryption_accepts_unopened_batch
         [OF batch1_open_reachable h2 h3 h4, of 5 99]
  show ?thesis using batch1_open_reachable h2 h3 h4 h5 h6 unfolding hash by blast
qed

section \<open>Accumulation of the submissions\<close>













section \<open>The commitment check of the callback\<close>

lemma exec_commitments_wf:
  assumes "never_zero_sum P" and "commitments_wf P s"
  shows "commitments_wf P (exec P (e, c) s)"
proof (cases c)
  case (SubmitEncryptedComputeResource b x y)
  from assms(1) have nz: "\<And>u v. FHE_toBytes32 P (FHE_add P u v) \<noteq> 0"
    by (simp add: never_zero_sum_def)
  from assms(2) show ?thesis
    using SubmitEncryptedComputeResource
    by (auto simp: commitments_wf_def request_stored_def exec_def call_defs Let_def nz
             split: if_splits sum.splits)
next
  case (RequestBatchDecryption b r)
  from assms(2) show ?thesis
    using RequestBatchDecryption
    by (auto simp: commitments_wf_def request_stored_def exec_def call_defs Let_def
             split: if_splits sum.splits)
next
  case (MyCallback r cl p)
  from assms(2) show ?thesis
    using MyCallback
    by (auto simp: commitments_wf_def request_stored_def exec_def call_defs Let_def
             split: if_splits sum.splits option.splits)
qed (use assms(2) in \<open>auto simp: commitments_wf_def request_stored_def exec_def call_defs Let_def
       split: if_splits sum.splits\<close>)

lemma run_commitments_wf:
  "never_zero_sum P \<Longrightarrow> commitments_wf P s \<Longrightarrow> commitments_wf P (run P txs s)"
proof (induction txs arbitrary: s)
  case Nil
  then show ?case by simp
next
  case (Cons tx txs)
  obtain e c where tx: "tx = (e, c)" by (cases tx)
  from Cons.prems have "commitments_wf P (exec P tx s)"
    unfolding tx by (rule exec_commitments_wf)
  with Cons.prems(1) show ?case by (simp add: Cons.IH)
qed

lemma reachable_commitments_wf:
  assumes "never_zero_sum P" and "reachable P s"
  shows "commitments_wf P s"
proof -
  from assms(2) obtain d txs where s: "s = run P txs (constructor d)"
    by (auto simp: reachable_def)
  have "commitments_wf P (constructor d)"
    by (simp add: commitments_wf_def request_stored_def constructor_def emit_def)
  with assms(1) show ?thesis unfolding s by (rule run_commitments_wf)
qed

lemma mismatch_state_eval:
  "decryptionContexts mismatch_state 77 = \<lparr>batchId = 1, stateHash = 961, processed = False\<rparr>"
  "batchTotalEncryptedComputeUnits mismatch_state 1 = mock_encrypt 10"
  "batchTotalEncryptedLendAmounts mismatch_state 1 = mock_encrypt 5"
  "request_stored mismatch_state 77"
  by (auto simp add: mismatch_state_def mismatch_txs_def request_stored_def scenario_defs call_defs)

lemma mismatch_state_reachable: "reachable mock_platform mismatch_state"
  unfolding reachable_def mismatch_state_def deployed_def by blast

text \<open>
  Claim C3. Let no sum of the FHE library have the zero handle, the word that the contract
  itself reads as a batch without data. In every reachable state, for every request
  identifier under which a request has stored a context that is not processed, \<open>myCallback\<close>
  recomputes the hash of the two current accumulators of the batch and the contract's own
  address; whenever it differs from the stored commitment the call fails with
  \<open>StateMismatch\<close> and the state is unchanged. The call reaches \<open>FHE.checkSignatures\<close>, and
  what follows it, only when the two hashes are equal.
\<close>

theorem callback_checks_commitment:
  assumes "reachable P s" and "never_zero_sum P" and "request_stored s r"
    and "\<not> processed (decryptionContexts s r)"
  shows "(hashCiphertexts P
            [batchTotalEncryptedComputeUnits s (batchId (decryptionContexts s r)),
             batchTotalEncryptedLendAmounts s (batchId (decryptionContexts s r))]
            \<noteq> stateHash (decryptionContexts s r) \<longrightarrow>
          myCallback P r c p s = Inl StateMismatch \<and> exec P (e, MyCallback r c p) s = s) \<and>
         (myCallback P r c p s = Inl CheckSignaturesReverted
          \<or> myCallback P r c p s = Inl AbiDecodeReverted
          \<or> \<not> isl (myCallback P r c p s) \<longrightarrow>
          hashCiphertexts P
            [batchTotalEncryptedComputeUnits s (batchId (decryptionContexts s r)),
             batchTotalEncryptedLendAmounts s (batchId (decryptionContexts s r))]
            = stateHash (decryptionContexts s r)) \<and>
         hashCiphertexts P
            [batchTotalEncryptedComputeUnits s (batchId (decryptionContexts s r)),
             batchTotalEncryptedLendAmounts s (batchId (decryptionContexts s r))]
          = keccak256_abi_encode P
              [batchTotalEncryptedComputeUnits s (batchId (decryptionContexts s r)),
               batchTotalEncryptedLendAmounts s (batchId (decryptionContexts s r))]
              (self_address P)"
proof -
  let ?b = "batchId (decryptionContexts s r)"
  let ?h = "hashCiphertexts P
      [batchTotalEncryptedComputeUnits s ?b, batchTotalEncryptedLendAmounts s ?b]"
  from reachable_commitments_wf [OF assms(2,1)]
  have lend: "batchTotalEncryptedComputeUnits s ?b = 0 \<Longrightarrow> batchTotalEncryptedLendAmounts s ?b = 0"
    and com: "stateHash (decryptionContexts s r) = hashCiphertexts P [0, 0]
        \<or> batchTotalEncryptedComputeUnits s ?b \<noteq> 0"
    using assms(3) by (auto simp: commitments_wf_def)
  have gate: "isBatchOpen s ?b \<or> batchTotalEncryptedComputeUnits s ?b \<noteq> 0"
    if "?h \<noteq> stateHash (decryptionContexts s r)"
  proof (rule ccontr)
    assume "\<not> (isBatchOpen s ?b \<or> batchTotalEncryptedComputeUnits s ?b \<noteq> 0)"
    then have z: "batchTotalEncryptedComputeUnits s ?b = 0" by simp
    with com have "stateHash (decryptionContexts s r) = hashCiphertexts P [0, 0]" by simp
    moreover from z lend have "?h = hashCiphertexts P [0, 0]" by simp
    ultimately show False using that by simp
  qed
  have mismatch: "myCallback P r c p s = Inl StateMismatch \<and> exec P (e, MyCallback r c p) s = s"
    if "?h \<noteq> stateHash (decryptionContexts s r)"
    using gate [OF that] that assms(4) by (auto simp: myCallback_def exec_def Let_def)
  have only: "?h = stateHash (decryptionContexts s r)"
    if "myCallback P r c p s = Inl CheckSignaturesReverted
          \<or> myCallback P r c p s = Inl AbiDecodeReverted
          \<or> \<not> isl (myCallback P r c p s)"
    using that by (auto simp: myCallback_def Let_def split: if_splits option.splits)
  have "?h = keccak256_abi_encode P
      [batchTotalEncryptedComputeUnits s ?b, batchTotalEncryptedLendAmounts s ?b] (self_address P)"
    by (simp add: hashCiphertexts_def)
  with mismatch only show ?thesis by blast
qed

theorem callback_checks_commitment_witness:
  "reachable mock_platform mismatch_state \<and> never_zero_sum mock_platform \<and>
   request_stored mismatch_state 77 \<and> \<not> processed (decryptionContexts mismatch_state 77) \<and>
   stateHash (decryptionContexts mismatch_state 77) = 961 \<and>
   hashCiphertexts mock_platform
     [batchTotalEncryptedComputeUnits mismatch_state (batchId (decryptionContexts mismatch_state 77)),
      batchTotalEncryptedLendAmounts mismatch_state (batchId (decryptionContexts mismatch_state 77))]
     \<noteq> stateHash (decryptionContexts mismatch_state 77) \<and>
   myCallback mock_platform 77 cleartexts_17_8 [1] mismatch_state = Inl StateMismatch"
proof -
  have h3: "request_stored mismatch_state 77"
    and h4: "\<not> processed (decryptionContexts mismatch_state 77)"
    and st: "stateHash (decryptionContexts mismatch_state 77) = 961"
    by (simp_all add: mismatch_state_eval)
  have differs: "hashCiphertexts mock_platform
     [batchTotalEncryptedComputeUnits mismatch_state (batchId (decryptionContexts mismatch_state 77)),
      batchTotalEncryptedLendAmounts mismatch_state (batchId (decryptionContexts mismatch_state 77))]
     \<noteq> stateHash (decryptionContexts mismatch_state 77)"
    by (simp add: mismatch_state_eval hashCiphertexts_def mock_platform_def mock_encrypt_def)
  note T = callback_checks_commitment
             [OF mismatch_state_reachable mock_never_zero_sum h3 h4,
              of cleartexts_17_8 "[1]" "stranger_env 9"]
  note m = T [THEN conjunct1, THEN mp, OF differs, THEN conjunct1]
  from mismatch_state_reachable mock_never_zero_sum h3 h4 st differs m
  show ?thesis by blast
qed

section \<open>The cooldown gate\<close>

lemma checked_add_overflow:
  "\<not> unat a + unat c < 2 ^ 256 \<Longrightarrow> checked_add a c = Inl ArithmeticPanic"
  by (simp add: checked_add_def)

lemma cooldown_max_eval:
  "isProvider cooldown_max_state 2" "\<not> paused cooldown_max_state"
  "isBatchOpen cooldown_max_state 1"
  "lastSubmissionTime cooldown_max_state 2 = 5"
  "cooldownSeconds cooldown_max_state = 2 ^ 256 - 1"
  by (auto simp add: cooldown_max_state_def cooldown_max_txs_def batch1_open_eval
        scenario_defs call_defs)

lemma cooldown_60_eval:
  "isProvider cooldown_60_state 2" "\<not> paused cooldown_60_state"
  "isBatchOpen cooldown_60_state 1"
  "lastSubmissionTime cooldown_60_state 2 = 100"
  "cooldownSeconds cooldown_60_state = 60"
  by (auto simp add: cooldown_60_state_def batch1_open_eval scenario_defs call_defs)

text \<open>
  Claim C5, as amended. A submission, and likewise a decryption request, that succeeds at
  time \<open>T\<close> has \<open>T\<close> at or after the caller's last time of that kind plus
  \<open>cooldownSeconds\<close>; the result is the rest of the function run on the state in which that
  time is already set to \<open>T\<close>, and the time of the other kind and the cooldown are
  untouched. A call that passes the access and pause checks with \<open>T\<close> before that sum
  fails and changes nothing: with \<open>CooldownActive\<close> when the sum fits in a \<open>uint256\<close>, with
  the arithmetic panic of the checked addition when it does not.
\<close>

theorem cooldown_gate:
  "(\<forall>s'. submitEncryptedComputeResource P e b x y s = Inr s' \<longrightarrow>
      unat (lastSubmissionTime s (msg_sender e)) + unat (cooldownSeconds s)
        \<le> unat (block_timestamp e) \<and>
      s' = submit_effects P e b x y
             (s\<lparr>lastSubmissionTime :=
                  (lastSubmissionTime s)(msg_sender e := block_timestamp e)\<rparr>) \<and>
      lastSubmissionTime s' (msg_sender e) = block_timestamp e \<and>
      lastDecryptionRequestTime s' = lastDecryptionRequestTime s \<and>
      cooldownSeconds s' = cooldownSeconds s) \<and>
   (isProvider s (msg_sender e) \<and> \<not> paused s \<and>
    unat (block_timestamp e)
      < unat (lastSubmissionTime s (msg_sender e)) + unat (cooldownSeconds s) \<longrightarrow>
      submitEncryptedComputeResource P e b x y s =
        Inl (if unat (lastSubmissionTime s (msg_sender e)) + unat (cooldownSeconds s) < 2 ^ 256
             then CooldownActive else ArithmeticPanic) \<and>
      exec P (e, SubmitEncryptedComputeResource b x y) s = s) \<and>
   (\<forall>s'. requestBatchDecryption P e b r s = Inr s' \<longrightarrow>
      unat (lastDecryptionRequestTime s (msg_sender e)) + unat (cooldownSeconds s)
        \<le> unat (block_timestamp e) \<and>
      s' = request_effects P b r
             (s\<lparr>lastDecryptionRequestTime :=
                  (lastDecryptionRequestTime s)(msg_sender e := block_timestamp e)\<rparr>) \<and>
      lastDecryptionRequestTime s' (msg_sender e) = block_timestamp e \<and>
      lastSubmissionTime s' = lastSubmissionTime s \<and>
      cooldownSeconds s' = cooldownSeconds s) \<and>
   (msg_sender e = owner s \<and> \<not> paused s \<and>
    unat (block_timestamp e)
      < unat (lastDecryptionRequestTime s (msg_sender e)) + unat (cooldownSeconds s) \<longrightarrow>
      requestBatchDecryption P e b r s =
        Inl (if unat (lastDecryptionRequestTime s (msg_sender e)) + unat (cooldownSeconds s)
                < 2 ^ 256
             then CooldownActive else ArithmeticPanic) \<and>
      exec P (e, RequestBatchDecryption b r) s = s)"
proof -
  have sub_ok: "unat (lastSubmissionTime s (msg_sender e)) + unat (cooldownSeconds s)
        \<le> unat (block_timestamp e) \<and>
      s' = submit_effects P e b x y
             (s\<lparr>lastSubmissionTime :=
                  (lastSubmissionTime s)(msg_sender e := block_timestamp e)\<rparr>) \<and>
      lastSubmissionTime s' (msg_sender e) = block_timestamp e \<and>
      lastDecryptionRequestTime s' = lastDecryptionRequestTime s \<and>
      cooldownSeconds s' = cooldownSeconds s"
    if ok: "submitEncryptedComputeResource P e b x y s = Inr s'" for s'
  proof -
    let ?l = "lastSubmissionTime s (msg_sender e)" and ?c = "cooldownSeconds s"
    from ok have n: "unat ?l + unat ?c < 2 ^ 256" and t: "\<not> block_timestamp e < ?l + ?c"
      and s': "s' = submit_effects P e b x y
             (s\<lparr>lastSubmissionTime :=
                  (lastSubmissionTime s)(msg_sender e := block_timestamp e)\<rparr>)"
      by (auto simp: submitEncryptedComputeResource_def checked_add_def
               split: if_splits sum.splits)
    from t have "unat ?l + unat ?c \<le> unat (block_timestamp e)"
      by (simp add: word_less_nat_alt unat_add_uint256 [OF n])
    then show ?thesis
      by (simp add: s' submit_effects_def initIfNeeded_def emit_def Let_def)
  qed
  have sub_no: "submitEncryptedComputeResource P e b x y s =
        Inl (if unat (lastSubmissionTime s (msg_sender e)) + unat (cooldownSeconds s) < 2 ^ 256
             then CooldownActive else ArithmeticPanic) \<and>
      exec P (e, SubmitEncryptedComputeResource b x y) s = s"
    if "isProvider s (msg_sender e)" "\<not> paused s"
      "unat (block_timestamp e)
         < unat (lastSubmissionTime s (msg_sender e)) + unat (cooldownSeconds s)"
  proof (cases "unat (lastSubmissionTime s (msg_sender e)) + unat (cooldownSeconds s) < 2 ^ 256")
    case True
    from checked_add_active [OF that(3) True] that(1,2) True show ?thesis
      by (simp add: submitEncryptedComputeResource_def exec_def)
  next
    case False
    from checked_add_overflow [OF False] that(1,2) False show ?thesis
      by (simp add: submitEncryptedComputeResource_def exec_def)
  qed
  have req_ok: "unat (lastDecryptionRequestTime s (msg_sender e)) + unat (cooldownSeconds s)
        \<le> unat (block_timestamp e) \<and>
      s' = request_effects P b r
             (s\<lparr>lastDecryptionRequestTime :=
                  (lastDecryptionRequestTime s)(msg_sender e := block_timestamp e)\<rparr>) \<and>
      lastDecryptionRequestTime s' (msg_sender e) = block_timestamp e \<and>
      lastSubmissionTime s' = lastSubmissionTime s \<and>
      cooldownSeconds s' = cooldownSeconds s"
    if ok: "requestBatchDecryption P e b r s = Inr s'" for s'
  proof -
    let ?l = "lastDecryptionRequestTime s (msg_sender e)" and ?c = "cooldownSeconds s"
    from ok have n: "unat ?l + unat ?c < 2 ^ 256" and t: "\<not> block_timestamp e < ?l + ?c"
      and s': "s' = request_effects P b r
             (s\<lparr>lastDecryptionRequestTime :=
                  (lastDecryptionRequestTime s)(msg_sender e := block_timestamp e)\<rparr>)"
      by (auto simp: requestBatchDecryption_def checked_add_def
               split: if_splits sum.splits)
    from t have "unat ?l + unat ?c \<le> unat (block_timestamp e)"
      by (simp add: word_less_nat_alt unat_add_uint256 [OF n])
    then show ?thesis
      by (simp add: s' request_effects_def emit_def Let_def)
  qed
  have req_no: "requestBatchDecryption P e b r s =
        Inl (if unat (lastDecryptionRequestTime s (msg_sender e)) + unat (cooldownSeconds s)
                < 2 ^ 256
             then CooldownActive else ArithmeticPanic) \<and>
      exec P (e, RequestBatchDecryption b r) s = s"
    if "msg_sender e = owner s" "\<not> paused s"
      "unat (block_timestamp e)
         < unat (lastDecryptionRequestTime s (msg_sender e)) + unat (cooldownSeconds s)"
  proof (cases "unat (lastDecryptionRequestTime s (msg_sender e)) + unat (cooldownSeconds s)
                  < 2 ^ 256")
    case True
    from checked_add_active [OF that(3) True] that(1,2) True show ?thesis
      by (simp add: requestBatchDecryption_def exec_def)
  next
    case False
    from checked_add_overflow [OF False] that(1,2) False show ?thesis
      by (simp add: requestBatchDecryption_def exec_def)
  qed
  from sub_ok sub_no req_ok req_no show ?thesis by blast
qed

theorem cooldown_gate_witness:
  "isProvider cooldown_60_state (msg_sender (provider_env 159)) \<and> \<not> paused cooldown_60_state \<and>
   unat (block_timestamp (provider_env 159))
     < unat (lastSubmissionTime cooldown_60_state (msg_sender (provider_env 159)))
       + unat (cooldownSeconds cooldown_60_state) \<and>
   submitEncryptedComputeResource mock_platform (provider_env 159) 1 (mock_encrypt 7) (mock_encrypt 3) cooldown_60_state
     = Inl CooldownActive \<and>
   (\<exists>s'. submitEncryptedComputeResource mock_platform (provider_env 160) 1 (mock_encrypt 7) (mock_encrypt 3) cooldown_60_state
      = Inr s' \<and> lastSubmissionTime s' (msg_sender (provider_env 160)) = 160)"
proof -
  have h: "isProvider cooldown_60_state (msg_sender (provider_env 159)) \<and>
    \<not> paused cooldown_60_state \<and>
    unat (block_timestamp (provider_env 159))
     < unat (lastSubmissionTime cooldown_60_state (msg_sender (provider_env 159)))
       + unat (cooldownSeconds cooldown_60_state)"
    by (simp add: cooldown_60_eval provider_env_def)
  have fits: "unat (lastSubmissionTime cooldown_60_state (msg_sender (provider_env 159)))
       + unat (cooldownSeconds cooldown_60_state) < 2 ^ 256"
    by (simp add: cooldown_60_eval provider_env_def)
  have ok: "submitEncryptedComputeResource mock_platform (provider_env 160) 1 (mock_encrypt 7) (mock_encrypt 3) cooldown_60_state
      = Inr (submit_effects mock_platform (provider_env 160) 1 (mock_encrypt 7) (mock_encrypt 3)
          (cooldown_60_state\<lparr>lastSubmissionTime :=
             (lastSubmissionTime cooldown_60_state)(2 := 160)\<rparr>))"
    by (simp add: cooldown_60_eval provider_env_def submitEncryptedComputeResource_def
          checked_add_def)
  note active = cooldown_gate [where P = mock_platform and e = "provider_env 159" and b = 1
                         and x = "mock_encrypt 7" and y = "mock_encrypt 3" and s = cooldown_60_state and r = 0,
                         THEN conjunct2, THEN conjunct1, THEN mp, OF h, THEN conjunct1]
  note passed = cooldown_gate [where P = mock_platform and e = "provider_env 160" and b = 1
                         and x = "mock_encrypt 7" and y = "mock_encrypt 3" and s = cooldown_60_state and r = 0,
                         THEN conjunct1, THEN spec, THEN mp, OF ok]
  from active fits
  have a: "submitEncryptedComputeResource mock_platform (provider_env 159) 1 (mock_encrypt 7) (mock_encrypt 3) cooldown_60_state
     = Inl CooldownActive"
    by (simp only: if_True)
  from passed have "lastSubmissionTime
       (submit_effects mock_platform (provider_env 160) 1 (mock_encrypt 7) (mock_encrypt 3)
          (cooldown_60_state\<lparr>lastSubmissionTime :=
             (lastSubmissionTime cooldown_60_state)(2 := 160)\<rparr>))
       (msg_sender (provider_env 160)) = block_timestamp (provider_env 160)"
    by blast
  then have "lastSubmissionTime
       (submit_effects mock_platform (provider_env 160) 1 (mock_encrypt 7) (mock_encrypt 3)
          (cooldown_60_state\<lparr>lastSubmissionTime :=
             (lastSubmissionTime cooldown_60_state)(2 := 160)\<rparr>))
       (msg_sender (provider_env 160)) = 160"
    by (simp add: provider_env_def)
  with ok have "\<exists>s'. submitEncryptedComputeResource mock_platform (provider_env 160) 1 (mock_encrypt 7) (mock_encrypt 3)
        cooldown_60_state = Inr s' \<and> lastSubmissionTime s' (msg_sender (provider_env 160)) = 160"
    by blast
  with h a show ?thesis by blast
qed

text \<open>
  The claim as it is written promises \<open>CooldownActive\<close> whenever \<open>T\<close> is too early. With
  the cooldown set to \<open>2 ^ 256 - 1\<close> after a submission at time 5, a submission at time 10
  is too early, and it fails with the arithmetic panic.
\<close>

theorem cooldown_active_counterexample:
  "isProvider cooldown_max_state (msg_sender (provider_env 10)) \<and>
   \<not> paused cooldown_max_state \<and> isBatchOpen cooldown_max_state 1 \<and>
   unat (block_timestamp (provider_env 10))
     < unat (lastSubmissionTime cooldown_max_state (msg_sender (provider_env 10)))
       + unat (cooldownSeconds cooldown_max_state) \<and>
   submitEncryptedComputeResource mock_platform (provider_env 10) 1 (mock_encrypt 7) (mock_encrypt 3) cooldown_max_state
     = Inl ArithmeticPanic"
  by (simp add: cooldown_max_eval provider_env_def submitEncryptedComputeResource_def
        checked_add_def)

section \<open>The owner\<close>

lemma step_owner:
  "step P e c s = Inr s' \<Longrightarrow>
     owner s' = (case c of TransferOwnership a \<Rightarrow> a | _ \<Rightarrow> owner s)"
  by (cases c)
     (auto simp: call_defs Let_def split: if_splits sum.splits option.splits)

lemma exec_owner_nonnull:
  "owner s \<noteq> 0 \<Longrightarrow> \<not> is_transfer_to_null c \<Longrightarrow> owner (exec P (e, c) s) \<noteq> 0"
proof (cases "step P e c s")
  case (Inl err)
  assume "owner s \<noteq> 0"
  with Inl show ?thesis by (simp add: exec_def)
next
  case (Inr s')
  assume "owner s \<noteq> 0" "\<not> is_transfer_to_null c"
  with step_owner [OF Inr] Inr show ?thesis
    by (cases c) (simp_all add: exec_def)
qed

lemma run_owner_nonnull:
  "owner s \<noteq> 0 \<Longrightarrow> list_all (\<lambda>tx. \<not> is_transfer_to_null (snd tx)) txs \<Longrightarrow>
     owner (run P txs s) \<noteq> 0"
proof (induction txs arbitrary: s)
  case Nil
  then show ?case by simp
next
  case (Cons tx txs)
  obtain e c where tx: "tx = (e, c)" by (cases tx)
  from Cons.prems have "owner (exec P tx s) \<noteq> 0"
    unfolding tx by (simp add: exec_owner_nonnull)
  with Cons.prems(2) show ?case by (simp add: Cons.IH)
qed

text \<open>
  Claim C6, as amended. After construction the owner is the deployer. \<open>transferOwnership\<close>
  fails with \<open>NotOwner\<close> for every caller but the owner, and for the owner it succeeds and
  the new owner is in place at once. No other function changes the owner. So the owner is
  not null after any sequence of transactions of a contract deployed by a non-null address,
  so long as none of them is a transfer to the null address: the function does not reject
  that address.
\<close>

theorem owner_changes_only_by_transfer:
  "owner (constructor d) = msg_sender d \<and>
   (msg_sender e \<noteq> owner s \<longrightarrow> transferOwnership e a s = Inl NotOwner) \<and>
   (msg_sender e = owner s \<longrightarrow>
      (\<exists>s'. transferOwnership e a s = Inr s' \<and> owner s' = a)) \<and>
   (\<forall>s'. step P e c s = Inr s' \<longrightarrow>
      owner s' = (case c of TransferOwnership a' \<Rightarrow> a' | _ \<Rightarrow> owner s)) \<and>
   (msg_sender d \<noteq> 0 \<and> list_all (\<lambda>tx. \<not> is_transfer_to_null (snd tx)) txs \<longrightarrow>
      owner (run P txs (constructor d)) \<noteq> 0)"
proof -
  have c: "owner (constructor d) = msg_sender d"
    by (simp add: constructor_def emit_def)
  have n: "msg_sender e \<noteq> owner s \<longrightarrow> transferOwnership e a s = Inl NotOwner"
    by (simp add: transferOwnership_def)
  have t: "msg_sender e = owner s \<longrightarrow>
      (\<exists>s'. transferOwnership e a s = Inr s' \<and> owner s' = a)"
    by (simp add: transferOwnership_def emit_def)
  have st: "\<forall>s'. step P e c s = Inr s' \<longrightarrow>
      owner s' = (case c of TransferOwnership a' \<Rightarrow> a' | _ \<Rightarrow> owner s)"
    using step_owner by blast
  have r: "msg_sender d \<noteq> 0 \<and> list_all (\<lambda>tx. \<not> is_transfer_to_null (snd tx)) txs \<longrightarrow>
      owner (run P txs (constructor d)) \<noteq> 0"
    using run_owner_nonnull [of "constructor d" txs P] c by simp
  from c n t st r show ?thesis by blast
qed

theorem owner_changes_only_by_transfer_witness:
  "msg_sender (owner_env 0) \<noteq> 0 \<and>
   list_all (\<lambda>tx. \<not> is_transfer_to_null (snd tx))
     [(owner_env 1, TransferOwnership 2), (provider_env 2, OpenBatch)] \<and>
   owner (run mock_platform [(owner_env 1, TransferOwnership 2), (provider_env 2, OpenBatch)]
            (constructor (owner_env 0))) \<noteq> 0 \<and>
   transferOwnership (stranger_env 1) 3 deployed = Inl NotOwner \<and>
   (\<exists>s'. transferOwnership (owner_env 1) 2 deployed = Inr s' \<and> owner s' = 2)"
proof -
  have h: "msg_sender (owner_env 0) \<noteq> 0 \<and>
     list_all (\<lambda>tx. \<not> is_transfer_to_null (snd tx))
       [(owner_env 1, TransferOwnership 2), (provider_env 2, OpenBatch)]"
    by (simp add: owner_env_def)
  have o: "msg_sender (owner_env 1) = owner deployed" "msg_sender (stranger_env 1) \<noteq> owner deployed"
    by (simp_all add: deployed_def constructor_def emit_def owner_env_def stranger_env_def)
  note T = owner_changes_only_by_transfer
  note long = T [where d = "owner_env 0" and P = mock_platform
       and txs = "[(owner_env 1, TransferOwnership 2), (provider_env 2, OpenBatch)]",
       THEN conjunct2, THEN conjunct2, THEN conjunct2, THEN conjunct2, THEN mp, OF h]
  note deny = T [where e = "stranger_env 1" and s = deployed and a = 3,
       THEN conjunct2, THEN conjunct1, THEN mp, OF o(2)]
  note give = T [where e = "owner_env 1" and s = deployed and a = 2,
       THEN conjunct2, THEN conjunct2, THEN conjunct1, THEN mp, OF o(1)]
  from h long deny give show ?thesis by blast
qed

text \<open>
  The claim as it is written says that the owner is never null. The owner can transfer the
  ownership to the null address, and the owner is null afterwards.
\<close>

theorem owner_null_counterexample:
  "reachable mock_platform null_owner_state \<and>
   transferOwnership (owner_env 1) 0 deployed = Inr null_owner_state \<and>
   owner null_owner_state = 0"
proof -
  have "null_owner_state = run mock_platform [(owner_env 1, TransferOwnership 0)]
          (constructor (owner_env 0))"
    by (simp add: null_owner_state_def deployed_def)
  then have r: "reachable mock_platform null_owner_state"
    unfolding reachable_def by blast
  have t: "transferOwnership (owner_env 1) 0 deployed = Inr null_owner_state"
    by (simp add: null_owner_state_def scenario_defs call_defs)
  have "owner null_owner_state = 0"
    by (simp add: null_owner_state_def scenario_defs call_defs)
  with r t show ?thesis by blast
qed

section \<open>The pause flag\<close>

lemma paused_state_eval:
  "paused paused_state" "owner paused_state = 1" "isProvider paused_state a = (a = 2)"
  "decryptionContexts paused_state 42 =
     \<lparr>batchId = 1,
      stateHash = hashCiphertexts mock_platform [mock_encrypt 8, mock_encrypt 4],
      processed = False\<rparr>"
  "batchTotalEncryptedComputeUnits paused_state 1 = mock_encrypt 8"
  "batchTotalEncryptedLendAmounts paused_state 1 = mock_encrypt 4"
proof -
  have ip: "isProvider batch1_requested a = (a = 2)"
    by (auto simp add: batch1_requested_def e2e_txs_def batch1_open_eval scenario_defs call_defs)
  have st: "setPaused (owner_env 7) True batch1_requested
      = Inr (emit (PauseToggled True) (batch1_requested\<lparr>paused := True\<rparr>))"
    by (simp add: setPaused_def owner_env_def batch1_requested_eval)
  then have ps: "paused_state = emit (PauseToggled True) (batch1_requested\<lparr>paused := True\<rparr>)"
    by (simp add: paused_state_def exec_def)
  show "paused paused_state" "owner paused_state = 1" "isProvider paused_state a = (a = 2)"
  "decryptionContexts paused_state 42 =
     \<lparr>batchId = 1,
      stateHash = hashCiphertexts mock_platform [mock_encrypt 8, mock_encrypt 4],
      processed = False\<rparr>"
  "batchTotalEncryptedComputeUnits paused_state 1 = mock_encrypt 8"
  "batchTotalEncryptedLendAmounts paused_state 1 = mock_encrypt 4"
    by (simp_all add: ps emit_def batch1_requested_eval ip)
qed

text \<open>
  Claim C8, as amended. While the contract is paused, a submission fails with \<open>Paused\<close> when
  the caller is a provider and with \<open>NotProvider\<close> otherwise, a decryption request fails with
  \<open>Paused\<close> when the caller is the owner and with \<open>NotOwner\<close> otherwise, and neither
  changes the state. \<open>myCallback\<close> does not read the flag: a call that meets its own
  checks succeeds while the contract is paused, marks the context as processed and leaves
  the contract paused.
\<close>

theorem pause_gates_after_access_check:
  assumes "paused s"
  shows "submitEncryptedComputeResource P e b x y s =
           Inl (if isProvider s (msg_sender e) then Paused else NotProvider) \<and>
         requestBatchDecryption P e b r s =
           Inl (if msg_sender e = owner s then Paused else NotOwner) \<and>
         exec P (e, SubmitEncryptedComputeResource b x y) s = s \<and>
         exec P (e, RequestBatchDecryption b r) s = s \<and>
         (\<not> processed (decryptionContexts s q) \<and>
          (isBatchOpen s (batchId (decryptionContexts s q))
           \<or> batchTotalEncryptedComputeUnits s (batchId (decryptionContexts s q)) \<noteq> 0) \<and>
          hashCiphertexts P
            [batchTotalEncryptedComputeUnits s (batchId (decryptionContexts s q)),
             batchTotalEncryptedLendAmounts s (batchId (decryptionContexts s q))]
            = stateHash (decryptionContexts s q) \<and>
          FHE_checkSignatures P q c p \<and> 32 \<le> length c \<longrightarrow>
          (\<exists>s'. myCallback P q c p s = Inr s' \<and> processed (decryptionContexts s' q)
                \<and> paused s'))"
  using assms
  by (auto simp: submitEncryptedComputeResource_def requestBatchDecryption_def exec_def
        myCallback_def Let_def abi_decode_uint256_def emit_def)

theorem pause_gates_after_access_check_witness:
  "paused paused_state \<and>
   submitEncryptedComputeResource mock_platform (provider_env 8) 1 (mock_encrypt 10) (mock_encrypt 5) paused_state
     = Inl Paused \<and>
   requestBatchDecryption mock_platform (owner_env 8) 1 43 paused_state = Inl Paused \<and>
   (\<exists>s'. myCallback mock_platform 42 cleartexts_17_8 [1] paused_state = Inr s' \<and>
      processed (decryptionContexts s' 42) \<and> paused s')"
proof -
  have h: "paused paused_state" by (rule paused_state_eval(1))
  have g: "\<not> processed (decryptionContexts paused_state 42) \<and>
          (isBatchOpen paused_state (batchId (decryptionContexts paused_state 42))
           \<or> batchTotalEncryptedComputeUnits paused_state
                (batchId (decryptionContexts paused_state 42)) \<noteq> 0) \<and>
          hashCiphertexts mock_platform
            [batchTotalEncryptedComputeUnits paused_state
               (batchId (decryptionContexts paused_state 42)),
             batchTotalEncryptedLendAmounts paused_state
               (batchId (decryptionContexts paused_state 42))]
            = stateHash (decryptionContexts paused_state 42) \<and>
          FHE_checkSignatures mock_platform 42 cleartexts_17_8 [1] \<and>
          32 \<le> length cleartexts_17_8"
    by (simp add: paused_state_eval mock_encrypt_nonzero mock_platform_def cleartexts_17_8_def)
  note T = pause_gates_after_access_check [OF h]
  from T [where P = mock_platform and e = "provider_env 8" and b = 1 and x = "mock_encrypt 10" and y = "mock_encrypt 5",
          THEN conjunct1]
  have a: "submitEncryptedComputeResource mock_platform (provider_env 8) 1 (mock_encrypt 10) (mock_encrypt 5) paused_state
     = Inl Paused"
    by (simp add: paused_state_eval provider_env_def)
  from T [where P = mock_platform and e = "owner_env 8" and b = 1 and r = 43,
          THEN conjunct2, THEN conjunct1]
  have b: "requestBatchDecryption mock_platform (owner_env 8) 1 43 paused_state = Inl Paused"
    by (simp add: paused_state_eval owner_env_def)
  note c = T [where P = mock_platform and q = 42 and c = cleartexts_17_8 and p = "[1]",
          THEN conjunct2, THEN conjunct2, THEN conjunct2, THEN conjunct2, THEN mp, OF g]
  from h a b c show ?thesis by blast
qed

text \<open>
  The claim as it is written promises the paused error for every call. The access check
  comes first: while paused, a caller that is neither provider nor owner gets
  \<open>NotProvider\<close> and \<open>NotOwner\<close>.
\<close>

theorem paused_error_counterexample:
  "paused paused_state \<and>
   submitEncryptedComputeResource mock_platform (stranger_env 8) 1 (mock_encrypt 10) (mock_encrypt 5) paused_state
     = Inl NotProvider \<and>
   requestBatchDecryption mock_platform (stranger_env 8) 1 43 paused_state = Inl NotOwner"
  by (simp add: paused_state_eval stranger_env_def submitEncryptedComputeResource_def
        requestBatchDecryption_def)

section \<open>The batch gate of the callback\<close>

lemma empty_requested_eval:
  "decryptionContexts empty_requested 42 = \<lparr>batchId = 1, stateHash = 961, processed = False\<rparr>"
  "\<not> isBatchOpen empty_requested 1" "currentBatchId empty_requested = 1"
  "batchTotalEncryptedComputeUnits empty_requested 1 = 0"
  by (auto simp add: empty_requested_def batch1_closed_empty_def batch1_open_eval
        scenario_defs call_defs)

lemma empty_requested_reachable: "reachable mock_platform empty_requested"
proof -
  have "empty_requested = run mock_platform
          [(owner_env 1, AddProvider 2), (owner_env 2, OpenBatch),
           (owner_env 3, CloseBatch 1), (owner_env 4, RequestBatchDecryption 1 42)]
          (constructor (owner_env 0))"
    by (simp add: empty_requested_def batch1_closed_empty_def batch1_open_def deployed_def)
  then show ?thesis unfolding reachable_def by blast
qed

lemma replay_state_eval:
  "decryptionContexts replay_state 77 = \<lparr>batchId = 1, stateHash = 961, processed = True\<rparr>"
  "\<not> isBatchOpen replay_state 1"
  "batchTotalEncryptedComputeUnits replay_state 1 = 0"
  by (auto simp add: replay_state_def replay_txs_def scenario_defs call_defs
        abi_decode_uint256_def cleartexts_17_8_def Let_def)

text \<open>
  Claim C10, as amended. \<open>myCallback\<close> fails with \<open>InvalidBatchId\<close>, whatever the hash, the
  payload and the proof are, for every request whose context is not processed and whose
  batch is not open and has a zero compute-unit accumulator. In a reachable state a request
  bound to batch 0, as every request without a stored context is, fails in this way; and
  once a batch is allocated, closed and without submissions, no callback for a request bound
  to it succeeds after any sequence of transactions.
\<close>

theorem callback_rejects_empty_closed_batch:
  "(\<not> processed (decryptionContexts s r) \<and>
    \<not> isBatchOpen s (batchId (decryptionContexts s r)) \<and>
    batchTotalEncryptedComputeUnits s (batchId (decryptionContexts s r)) = 0 \<longrightarrow>
      myCallback P r c p s = Inl InvalidBatchId) \<and>
   (reachable P s \<longrightarrow>
      (batchId (decryptionContexts s r) = 0 \<longrightarrow> myCallback P r c p s = Inl InvalidBatchId) \<and>
      (closed_batch s b \<and> batchTotalEncryptedComputeUnits s b = 0 \<longrightarrow>
         (\<forall>txs r' c' p'. batchId (decryptionContexts (run P txs s) r') = b \<longrightarrow>
            isl (myCallback P r' c' p' (run P txs s)))))"
proof -
  have gate: "myCallback P r c p s = Inl InvalidBatchId"
    if "\<not> processed (decryptionContexts s r)"
      "\<not> isBatchOpen s (batchId (decryptionContexts s r))"
      "batchTotalEncryptedComputeUnits s (batchId (decryptionContexts s r)) = 0"
    using that by (simp add: myCallback_def)
  have zero: "myCallback P r c p s = Inl InvalidBatchId"
    if "reachable P s" "batchId (decryptionContexts s r) = 0"
    using reachable_batches_wf [OF that(1)] that(2)
    by (auto simp: batches_wf_def myCallback_def)
  have dead: "isl (myCallback P r' c' p' (run P txs s))"
    if cl: "closed_batch s b" and z: "batchTotalEncryptedComputeUnits s b = 0"
      and bd: "batchId (decryptionContexts (run P txs s) r') = b"
    for txs r' c' p'
  proof -
    have "\<not> isBatchOpen (run P txs s) b"
      using run_closed_batch [OF cl, of P txs] by (simp add: closed_batch_def)
    moreover have "batchTotalEncryptedComputeUnits (run P txs s) b = 0"
      using run_closed_compute_acc [OF cl, of P txs] z by simp
    ultimately show ?thesis using bd by (simp add: myCallback_def)
  qed
  from gate zero dead show ?thesis by blast
qed

theorem callback_rejects_empty_closed_batch_witness:
  "\<not> processed (decryptionContexts empty_requested 42) \<and>
   \<not> isBatchOpen empty_requested (batchId (decryptionContexts empty_requested 42)) \<and>
   batchTotalEncryptedComputeUnits empty_requested
     (batchId (decryptionContexts empty_requested 42)) = 0 \<and>
   reachable mock_platform empty_requested \<and>
   closed_batch empty_requested 1 \<and>
   myCallback mock_platform 42 cleartexts_17_8 [1] empty_requested = Inl InvalidBatchId \<and>
   batchId (decryptionContexts empty_requested 5) = 0 \<and>
   myCallback mock_platform 5 cleartexts_17_8 [1] empty_requested = Inl InvalidBatchId \<and>
   isl (myCallback mock_platform 42 cleartexts_17_8 [1]
          (run mock_platform [(owner_env 9, OpenBatch)] empty_requested))"
proof -
  have g: "\<not> processed (decryptionContexts empty_requested 42) \<and>
     \<not> isBatchOpen empty_requested (batchId (decryptionContexts empty_requested 42)) \<and>
     batchTotalEncryptedComputeUnits empty_requested
       (batchId (decryptionContexts empty_requested 42)) = 0"
    by (simp add: empty_requested_eval)
  have cl: "closed_batch empty_requested 1 \<and> batchTotalEncryptedComputeUnits empty_requested 1 = 0"
    by (simp add: closed_batch_def empty_requested_eval)
  have z: "batchId (decryptionContexts empty_requested 5) = 0"
    by (simp add: empty_requested_def batch1_closed_empty_def batch1_open_eval
          scenario_defs call_defs)
  have later: "batchId (decryptionContexts
      (run mock_platform [(owner_env 9, OpenBatch)] empty_requested) 42) = 1"
    by (simp add: exec_def openBatch_def emit_def empty_requested_eval split: sum.splits)
  note T = callback_rejects_empty_closed_batch
  note a = T [where P = mock_platform and s = empty_requested and r = 42
      and c = cleartexts_17_8 and p = "[1]", THEN conjunct1, THEN mp, OF g]
  note R = T [where P = mock_platform and s = empty_requested and r = 5
      and c = cleartexts_17_8 and p = "[1]" and b = 1,
      THEN conjunct2, THEN mp, OF empty_requested_reachable]
  note b = R [THEN conjunct1, THEN mp, OF z]
  note c = R [THEN conjunct2, THEN mp, OF cl, THEN spec, THEN spec, THEN spec, THEN spec,
      THEN mp, OF later]
  from g cl z a b c empty_requested_reachable show ?thesis by blast
qed

text \<open>
  The claim as it is written promises \<open>InvalidBatchId\<close> for every such request. The replay
  check comes first: a request that was resolved while its batch was open and empty fails
  with \<open>ReplayDetected\<close> after the batch is closed.
\<close>

theorem invalid_batch_counterexample:
  "\<not> isBatchOpen replay_state (batchId (decryptionContexts replay_state 77)) \<and>
   batchTotalEncryptedComputeUnits replay_state
     (batchId (decryptionContexts replay_state 77)) = 0 \<and>
   myCallback mock_platform 77 cleartexts_17_8 [1] replay_state = Inl ReplayDetected"
  by (simp add: replay_state_eval myCallback_def)

end
